theory Spec2Isabelle
  imports Complex_Main "HOL-Library.Word"
begin

section \<open>Values of the program\<close>

text \<open>
  A JavaScript string is a sequence of UTF-16 code units, and its \<open>length\<close> counts
  code units. User data (questions, options, identifiers) is therefore a list of 16-bit
  words. The messages the actions return are written as HOL strings.
\<close>

type_synonym jstring = "16 word list"

definition js :: "string \<Rightarrow> jstring" where
  "js s = map of_char s"

text \<open>
  A JavaScript number that is not \<open>NaN\<close> or infinite is a rational; \<open>z.number()\<close> tells
  \<open>NaN\<close> from the rest, \<open>.int()\<close> is \<open>Number.isInteger\<close>.
\<close>

datatype number = Finite rat | NaN | PosInfinity | NegInfinity

fun isInteger :: "number \<Rightarrow> bool" where
  "isInteger (Finite r) = (of_int \<lfloor>r\<rfloor> = r)"
| "isInteger NaN = False"
| "isInteger PosInfinity = False"
| "isInteger NegInfinity = False"

fun lessThanZero :: "number \<Rightarrow> bool" where
  "lessThanZero (Finite r) = (r < 0)"
| "lessThanZero NaN = False"
| "lessThanZero PosInfinity = False"
| "lessThanZero NegInfinity = True"

fun atLeastLength :: "number \<Rightarrow> nat \<Rightarrow> bool" where
  "atLeastLength (Finite r) n = (of_nat n \<le> r)"
| "atLeastLength NaN n = False"
| "atLeastLength PosInfinity n = True"
| "atLeastLength NegInfinity n = False"

subsection \<open>String.prototype.trim\<close>

definition isWhiteSpace :: "16 word \<Rightarrow> bool" where
  "isWhiteSpace c =
     (c = 0x09 \<or> c = 0x0A \<or> c = 0x0B \<or> c = 0x0C \<or> c = 0x0D \<or> c = 0x20 \<or> c = 0xA0
      \<or> c = 0x1680 \<or> (0x2000 \<le> c \<and> c \<le> 0x200A) \<or> c = 0x2028 \<or> c = 0x2029
      \<or> c = 0x202F \<or> c = 0x205F \<or> c = 0x3000 \<or> c = 0xFEFF)"

definition trim :: "jstring \<Rightarrow> jstring" where
  "trim s = rev (dropWhile isWhiteSpace (rev (dropWhile isWhiteSpace s)))"

subsection \<open>FormData\<close>

datatype form_entry = Field jstring | File

type_synonym form_data = "(string \<times> form_entry) list"

definition form_get :: "form_data \<Rightarrow> string \<Rightarrow> form_entry option" where
  "form_get fd name = map_of fd name"

definition form_getAll :: "form_data \<Rightarrow> string \<Rightarrow> form_entry list" where
  "form_getAll fd name = map snd (filter (\<lambda>e. fst e = name) fd)"

text \<open>\<open>Boolean(v)\<close> on a form entry: only the empty string is falsy.\<close>

fun truthy :: "form_entry \<Rightarrow> bool" where
  "truthy (Field s) = (s \<noteq> [])"
| "truthy File = True"

text \<open>\<open>String(v)\<close> on a form entry.\<close>

fun String :: "form_entry \<Rightarrow> jstring" where
  "String (Field s) = s"
| "String File = js ''[object File]''"

section \<open>Storage\<close>

type_synonym timestamp = nat

record poll =
  polls_id :: jstring
  polls_question :: jstring
  polls_options :: "jstring list"
  polls_user_id :: jstring
  polls_created_at :: timestamp

record vote =
  votes_poll_id :: jstring
  votes_user_id :: jstring
  votes_option_index :: number
  votes_created_at :: timestamp

record profile =
  profiles_id :: jstring
  profiles_role :: jstring

datatype path = PollsPath | PollPath jstring

text \<open>
  The tables the actions touch, and the paths handed to \<open>revalidatePath\<close> so far
  (\<open>/polls\<close> and \<open>/polls/${pollId}\<close>).
\<close>

record state =
  polls :: "poll list"
  votes :: "vote list"
  profiles :: "profile list"
  revalidated :: "path list"

datatype issue =
    QuestionNotString | QuestionTooShort | QuestionTooLong
  | OptionsTooFew | OptionsTooMany | OptionTooShort nat | OptionTooLong nat
  | PollIdNotUuid | IndexNotNumber | IndexNotInteger | IndexNegative

datatype auth_response = AuthError string | NoUser | SignedIn jstring

text \<open>
  What the actions take from outside this repository: the answer of
  \<open>supabase.auth.getUser()\<close>, the database's refusals (a failed read or write carries
  the database's message; \<open>single_message\<close> is the message of \<open>.single()\<close> when the
  rows matched are not exactly one), the identifier and the time the database or the
  clock supply, whether votes are deleted with their poll ("if DB configured"), zod's
  \<open>uuid\<close> format and zod's built-in messages.
\<close>

record env =
  auth :: auth_response
  read_fault :: "string option"
  write_fault :: "string option"
  single_message :: string
  fresh_id :: jstring
  now :: timestamp
  cascade :: bool
  is_uuid :: "jstring \<Rightarrow> bool"
  default_message :: "issue \<Rightarrow> string"

text \<open>
  Each call of the database is one step: the model runs one action at a time, and an
  upsert is not interleaved with the calls of another request.
\<close>

definition single :: "env \<Rightarrow> 'a list \<Rightarrow> string + 'a" where
  "single e rows =
     (case read_fault e of
        Some m \<Rightarrow> Inl m
      | None \<Rightarrow> (case rows of [r] \<Rightarrow> Inr r | _ \<Rightarrow> Inl (single_message e)))"

definition select_poll :: "env \<Rightarrow> state \<Rightarrow> jstring \<Rightarrow> string + poll" where
  "select_poll e s i = single e (filter (\<lambda>p. polls_id p = i) (polls s))"

definition select_user_polls :: "env \<Rightarrow> state \<Rightarrow> jstring \<Rightarrow> string + poll list" where
  "select_user_polls e s u =
     (case read_fault e of
        Some m \<Rightarrow> Inl m
      | None \<Rightarrow> Inr (rev (sort_key polls_created_at (filter (\<lambda>p. polls_user_id p = u) (polls s)))))"

definition insert_poll :: "env \<Rightarrow> state \<Rightarrow> jstring \<Rightarrow> jstring \<Rightarrow> jstring list \<Rightarrow> string + state" where
  "insert_poll e s u q os =
     (case write_fault e of
        Some m \<Rightarrow> Inl m
      | None \<Rightarrow> Inr (s\<lparr>polls := polls s @
          [\<lparr>polls_id = fresh_id e, polls_question = q, polls_options = os,
            polls_user_id = u, polls_created_at = now e\<rparr>]\<rparr>))"

definition update_poll :: "env \<Rightarrow> state \<Rightarrow> jstring \<Rightarrow> jstring \<Rightarrow> jstring list \<Rightarrow> string + state" where
  "update_poll e s i q os =
     (case write_fault e of
        Some m \<Rightarrow> Inl m
      | None \<Rightarrow> Inr (s\<lparr>polls :=
          map (\<lambda>p. if polls_id p = i then p\<lparr>polls_question := q, polls_options := os\<rparr> else p)
            (polls s)\<rparr>))"

definition delete_poll :: "env \<Rightarrow> state \<Rightarrow> jstring \<Rightarrow> string + state" where
  "delete_poll e s i =
     (case write_fault e of
        Some m \<Rightarrow> Inl m
      | None \<Rightarrow> Inr (s\<lparr>polls := filter (\<lambda>p. polls_id p \<noteq> i) (polls s),
          votes := (if cascade e then filter (\<lambda>v. votes_poll_id v \<noteq> i) (votes s) else votes s)\<rparr>))"

text \<open>
  \<open>upsert(payload, { onConflict: poll_id,user_id })\<close>: a row with the payload's
  (poll_id, user_id) is overwritten by the payload, otherwise the payload is a new row.
  The answer carries the rows written.
\<close>

definition same_key :: "vote \<Rightarrow> vote \<Rightarrow> bool" where
  "same_key a b = (votes_poll_id a = votes_poll_id b \<and> votes_user_id a = votes_user_id b)"

definition upsert_rows :: "vote \<Rightarrow> vote list \<Rightarrow> vote list" where
  "upsert_rows v rows =
     (if list_ex (same_key v) rows then map (\<lambda>w. if same_key v w then v else w) rows
      else rows @ [v])"

definition upsert_vote :: "env \<Rightarrow> state \<Rightarrow> vote \<Rightarrow> string + (vote list \<times> state)" where
  "upsert_vote e s v =
     (case write_fault e of
        Some m \<Rightarrow> Inl m
      | None \<Rightarrow> Inr (filter (same_key v) (upsert_rows v (votes s)),
                    s\<lparr>votes := upsert_rows v (votes s)\<rparr>))"

definition revalidatePath :: "path \<Rightarrow> state \<Rightarrow> state" where
  "revalidatePath p s = s\<lparr>revalidated := revalidated s @ [p]\<rparr>"

section \<open>Validation schemas\<close>

text \<open>
  \<open>CreateUpdatePollSchema\<close>: \<open>question\<close> is a string of 5 to 1000 code units,
  \<open>options\<close> an array of 2 to 50 strings of 1 to 300 code units. zod collects the issues
  of every check: the keys in the order of the schema, the checks of a string in the
  order they are declared, the size of an array before its items.
\<close>

definition question_issues :: "jstring \<Rightarrow> issue list" where
  "question_issues q =
     (if length q < 5 then [QuestionTooShort] else []) @
     (if length q > 1000 then [QuestionTooLong] else [])"

definition option_issues :: "nat \<Rightarrow> jstring \<Rightarrow> issue list" where
  "option_issues i opt =
     (if length opt < 1 then [OptionTooShort i] else []) @
     (if length opt > 300 then [OptionTooLong i] else [])"

definition options_issues :: "jstring list \<Rightarrow> issue list" where
  "options_issues os =
     (if length os < 2 then [OptionsTooFew] else []) @
     (if length os > 50 then [OptionsTooMany] else []) @
     concat (map (\<lambda>(i, opt). option_issues i opt) (enumerate 0 os))"

fun poll_issues :: "form_entry \<Rightarrow> jstring list \<Rightarrow> issue list" where
  "poll_issues (Field q) os = question_issues q @ options_issues os"
| "poll_issues File os = QuestionNotString # options_issues os"

fun CreateUpdatePollSchema :: "form_entry \<Rightarrow> jstring list \<Rightarrow> issue list + (jstring \<times> jstring list)" where
  "CreateUpdatePollSchema (Field q) os =
     (if poll_issues (Field q) os = [] then Inr (q, os) else Inl (poll_issues (Field q) os))"
| "CreateUpdatePollSchema File os = Inl (poll_issues File os)"

text \<open>
  \<open>SubmitVoteSchema\<close>: \<open>pollId\<close> is a uuid, \<open>optionIndex\<close> a number that is an integer
  and not negative. \<open>NaN\<close> is no number for zod, and its other checks are skipped.
\<close>

fun index_issues :: "number \<Rightarrow> issue list" where
  "index_issues NaN = [IndexNotNumber]"
| "index_issues n =
     (if isInteger n then [] else [IndexNotInteger]) @
     (if lessThanZero n then [IndexNegative] else [])"

definition vote_issues :: "env \<Rightarrow> jstring \<Rightarrow> number \<Rightarrow> issue list" where
  "vote_issues e pollId optionIndex =
     (if is_uuid e pollId then [] else [PollIdNotUuid]) @ index_issues optionIndex"

definition SubmitVoteSchema :: "env \<Rightarrow> jstring \<Rightarrow> number \<Rightarrow> issue list + (jstring \<times> number)" where
  "SubmitVoteSchema e pollId optionIndex =
     (if vote_issues e pollId optionIndex = [] then Inr (pollId, optionIndex)
      else Inl (vote_issues e pollId optionIndex))"

text \<open>The message of an issue: the one the schema gives, or zod's own.\<close>

fun message :: "env \<Rightarrow> issue \<Rightarrow> string" where
  "message e QuestionTooShort = ''Question is too short''"
| "message e OptionsTooFew = ''At least two options are required''"
| "message e i = default_message e i"

fun join :: "string \<Rightarrow> string list \<Rightarrow> string" where
  "join sep [] = []"
| "join sep [x] = x"
| "join sep (x # y # ys) = x @ sep @ join sep (y # ys)"

definition issues_text :: "env \<Rightarrow> issue list \<Rightarrow> string" where
  "issues_text e is = join '', '' (map (message e) is)"

section \<open>The actions\<close>

text \<open>
  An action returns an object: its fields, in the order they are written, each with its
  value.
\<close>

datatype jsvalue =
    Null | Bool bool | Message string
  | PollRow poll | PollRows "poll list" | VoteRows "vote list"

type_synonym reply = "(string \<times> jsvalue) list"

definition getAuthenticatedUser :: "env \<Rightarrow> string + jstring option" where
  "getAuthenticatedUser e =
     (case auth e of
        AuthError m \<Rightarrow> Inl (''Failed to read user session: '' @ m)
      | NoUser \<Rightarrow> Inr None
      | SignedIn u \<Rightarrow> Inr (Some u))"

definition form_question :: "form_data \<Rightarrow> form_entry" where
  "form_question fd = (case form_get fd ''question'' of None \<Rightarrow> Field [] | Some v \<Rightarrow> v)"

definition form_options :: "form_data \<Rightarrow> jstring list" where
  "form_options fd =
     filter (\<lambda>opt. opt \<noteq> []) (map (\<lambda>v. trim (String v)) (filter truthy (form_getAll fd ''options'')))"

definition createPoll :: "env \<Rightarrow> state \<Rightarrow> form_data \<Rightarrow> reply \<times> state" where
  "createPoll e s formData =
     (case CreateUpdatePollSchema (form_question formData) (form_options formData) of
        Inl is \<Rightarrow> ([(''error'', Message (issues_text e is))], s)
      | Inr (question, options) \<Rightarrow>
          (case getAuthenticatedUser e of
             Inl err \<Rightarrow> ([(''error'', Message ''Unable to verify session.'')], s)
           | Inr None \<Rightarrow> ([(''error'', Message ''You must be logged in to create a poll.'')], s)
           | Inr (Some user) \<Rightarrow>
               (case insert_poll e s user question options of
                  Inl m \<Rightarrow> ([(''error'', Message m)], s)
                | Inr s' \<Rightarrow> ([(''error'', Null)], revalidatePath PollsPath s'))))"

definition getUserPolls :: "env \<Rightarrow> state \<Rightarrow> reply \<times> state" where
  "getUserPolls e s =
     (case getAuthenticatedUser e of
        Inl err \<Rightarrow> ([(''polls'', PollRows []), (''error'', Message ''Failed to read session'')], s)
      | Inr None \<Rightarrow> ([(''polls'', PollRows []), (''error'', Message ''Not authenticated'')], s)
      | Inr (Some user) \<Rightarrow>
          (case select_user_polls e s user of
             Inl m \<Rightarrow> ([(''polls'', PollRows []), (''error'', Message m)], s)
           | Inr rows \<Rightarrow> ([(''polls'', PollRows rows), (''error'', Null)], s)))"

definition getPollById :: "env \<Rightarrow> state \<Rightarrow> jstring \<Rightarrow> reply \<times> state" where
  "getPollById e s i =
     (if i = [] then ([(''poll'', Null), (''error'', Message ''Invalid poll id'')], s)
      else
        (case select_poll e s i of
           Inl m \<Rightarrow> ([(''poll'', Null), (''error'', Message m)], s)
         | Inr row \<Rightarrow> ([(''poll'', PollRow row), (''error'', Null)], s)))"

definition submitVote :: "env \<Rightarrow> state \<Rightarrow> jstring \<Rightarrow> number \<Rightarrow> reply \<times> state" where
  "submitVote e s pollIdRaw optionIndexRaw =
     (case SubmitVoteSchema e pollIdRaw optionIndexRaw of
        Inl is \<Rightarrow> ([(''error'', Message (issues_text e is))], s)
      | Inr (pollId, optionIndex) \<Rightarrow>
          (case getAuthenticatedUser e of
             Inl err \<Rightarrow> ([(''error'', Message ''Failed to verify session.'')], s)
           | Inr None \<Rightarrow> ([(''error'', Message ''You must be logged in to vote.'')], s)
           | Inr (Some user) \<Rightarrow>
               (case select_poll e s pollId of
                  Inl pollErr \<Rightarrow> ([(''error'', Message ''Poll not found.'')], s)
                | Inr poll \<Rightarrow>
                    if lessThanZero optionIndex \<or> atLeastLength optionIndex (length (polls_options poll))
                    then ([(''error'', Message ''Invalid option selected.'')], s)
                    else
                      (case upsert_vote e s
                              \<lparr>votes_poll_id = pollId, votes_user_id = user,
                               votes_option_index = optionIndex, votes_created_at = now e\<rparr> of
                         Inl m \<Rightarrow> ([(''error'', Message m)], s)
                       | Inr (rows, s') \<Rightarrow> ([(''error'', Null)], revalidatePath (PollPath pollId) s')))))"

definition castVote :: "env \<Rightarrow> state \<Rightarrow> jstring \<Rightarrow> jstring \<Rightarrow> number \<Rightarrow> reply \<times> state" where
  "castVote e s poll_id user_id option_index =
     (if poll_id = [] \<or> user_id = []
      then ([(''success'', Bool False), (''error'', Message ''Missing poll_id or user_id'')], s)
      else
        (case upsert_vote e s
                \<lparr>votes_poll_id = poll_id, votes_user_id = user_id,
                 votes_option_index = option_index, votes_created_at = now e\<rparr> of
           Inl m \<Rightarrow> ([(''success'', Bool False), (''error'', Message m)], s)
         | Inr (rows, s') \<Rightarrow> ([(''success'', Bool True), (''data'', VoteRows rows)], s')))"

definition deletePoll :: "env \<Rightarrow> state \<Rightarrow> jstring \<Rightarrow> reply \<times> state" where
  "deletePoll e s i =
     (if i = [] then ([(''error'', Message ''Invalid poll id'')], s)
      else
        (case getAuthenticatedUser e of
           Inl err \<Rightarrow> ([(''error'', Message ''Failed to verify session.'')], s)
         | Inr None \<Rightarrow> ([(''error'', Message ''Not authenticated'')], s)
         | Inr (Some user) \<Rightarrow>
             (case select_poll e s i of
                Inl m \<Rightarrow> ([(''error'', Message m)], s)
              | Inr existing \<Rightarrow>
                  if polls_user_id existing \<noteq> user
                  then ([(''error'', Message ''Forbidden: you do not own this poll.'')], s)
                  else
                    (case delete_poll e s i of
                       Inl m \<Rightarrow> ([(''error'', Message m)], s)
                     | Inr s' \<Rightarrow> ([(''error'', Null)], revalidatePath PollsPath s')))))"

definition updatePoll :: "env \<Rightarrow> state \<Rightarrow> jstring \<Rightarrow> form_data \<Rightarrow> reply \<times> state" where
  "updatePoll e s pollId formData =
     (case CreateUpdatePollSchema (form_question formData) (form_options formData) of
        Inl is \<Rightarrow> ([(''error'', Message (issues_text e is))], s)
      | Inr (question, options) \<Rightarrow>
          (case getAuthenticatedUser e of
             Inl err \<Rightarrow> ([(''error'', Message ''Unable to verify session.'')], s)
           | Inr None \<Rightarrow> ([(''error'', Message ''You must be logged in to update a poll.'')], s)
           | Inr (Some user) \<Rightarrow>
               (case select_poll e s pollId of
                  Inl m \<Rightarrow> ([(''error'', Message m)], s)
                | Inr existing \<Rightarrow>
                    if polls_user_id existing \<noteq> user
                    then ([(''error'', Message ''Forbidden: you do not own this poll.'')], s)
                    else
                      (case update_poll e s pollId question options of
                         Inl m \<Rightarrow> ([(''error'', Message m)], s)
                       | Inr s' \<Rightarrow> ([(''error'', Null)], revalidatePath (PollPath pollId) s')))))"

section \<open>The admin page\<close>

text \<open>
  The admin page reads the caller's role from \<open>profiles\<close> with \<open>.single()\<close> and lets
  the caller in when it is \<open>admin\<close>; \<open>data\<close> is null when the read fails.
\<close>

definition profile_role :: "env \<Rightarrow> state \<Rightarrow> jstring \<Rightarrow> jstring option" where
  "profile_role e s u =
     (case single e (filter (\<lambda>r. profiles_id r = u) (profiles s)) of
        Inl m \<Rightarrow> None
      | Inr r \<Rightarrow> Some (profiles_role r))"

section \<open>Notions used by the properties\<close>

text \<open>
  The return type standard written at the head of the actions:
  \<open>{ error: string | null, data?: any }\<close>.
\<close>

definition envelope :: "reply \<Rightarrow> bool" where
  "envelope r = (map fst r = [''error''] \<or> map fst r = [''error'', ''data''])"

text \<open>Successive calls of \<open>submitVote\<close> on one poll, each in its own environment.\<close>

fun submitVotes :: "state \<Rightarrow> jstring \<Rightarrow> (env \<times> number) list \<Rightarrow> state" where
  "submitVotes s pollId [] = s"
| "submitVotes s pollId (c # calls) = submitVotes (snd (submitVote (fst c) s pollId (snd c))) pollId calls"

text \<open>The rows of \<open>votes\<close> of one poll and one voter.\<close>

definition votes_of :: "jstring \<Rightarrow> jstring \<Rightarrow> state \<Rightarrow> vote list" where
  "votes_of pollId u s = filter (\<lambda>v. votes_poll_id v = pollId \<and> votes_user_id v = u) (votes s)"

definition other_votes :: "jstring \<Rightarrow> jstring \<Rightarrow> state \<Rightarrow> vote list" where
  "other_votes pollId u s = filter (\<lambda>v. \<not> (votes_poll_id v = pollId \<and> votes_user_id v = u)) (votes s)"

subsection \<open>Concurrent calls of \<open>submitVote\<close>\<close>

text \<open>
  \<open>submitVote\<close> in the two steps its awaits cut it into: everything up to the payload,
  which reads the session and \<open>polls\<close>, and then the upsert followed by
  \<open>revalidatePath\<close>.
\<close>

definition vote_request :: "env \<Rightarrow> state \<Rightarrow> jstring \<Rightarrow> number \<Rightarrow> reply + vote" where
  "vote_request e s pollIdRaw optionIndexRaw =
     (case SubmitVoteSchema e pollIdRaw optionIndexRaw of
        Inl is \<Rightarrow> Inl [(''error'', Message (issues_text e is))]
      | Inr (pollId, optionIndex) \<Rightarrow>
          (case getAuthenticatedUser e of
             Inl err \<Rightarrow> Inl [(''error'', Message ''Failed to verify session.'')]
           | Inr None \<Rightarrow> Inl [(''error'', Message ''You must be logged in to vote.'')]
           | Inr (Some user) \<Rightarrow>
               (case select_poll e s pollId of
                  Inl pollErr \<Rightarrow> Inl [(''error'', Message ''Poll not found.'')]
                | Inr poll \<Rightarrow>
                    if lessThanZero optionIndex \<or> atLeastLength optionIndex (length (polls_options poll))
                    then Inl [(''error'', Message ''Invalid option selected.'')]
                    else Inr \<lparr>votes_poll_id = pollId, votes_user_id = user,
                              votes_option_index = optionIndex, votes_created_at = now e\<rparr>)))"

definition vote_write :: "env \<Rightarrow> state \<Rightarrow> vote \<Rightarrow> reply \<times> state" where
  "vote_write e s payload =
     (case upsert_vote e s payload of
        Inl m \<Rightarrow> ([(''error'', Message m)], s)
      | Inr (rows, s') \<Rightarrow> ([(''error'', Null)], revalidatePath (PollPath (votes_poll_id payload)) s'))"

text \<open>
  Requests running at the same time: each call is at one of three points, and a schedule
  says which call takes its next step. The steps of different calls interleave in any
  order; one step, and so one upsert, is not divided.
\<close>

record vote_call =
  call_env :: env
  call_poll :: jstring
  call_index :: number

datatype progress = NotStarted | Ready vote | Done reply

definition step :: "vote_call list \<Rightarrow> nat \<Rightarrow> state \<times> progress list \<Rightarrow> state \<times> progress list" where
  "step cs k c =
     (if k < length cs \<and> k < length (snd c) then
        (case snd c ! k of
           NotStarted \<Rightarrow>
             (case vote_request (call_env (cs ! k)) (fst c) (call_poll (cs ! k)) (call_index (cs ! k)) of
                Inl r \<Rightarrow> (fst c, (snd c)[k := Done r])
              | Inr v \<Rightarrow> (fst c, (snd c)[k := Ready v]))
         | Ready v \<Rightarrow>
             (snd (vote_write (call_env (cs ! k)) (fst c) v),
              (snd c)[k := Done (fst (vote_write (call_env (cs ! k)) (fst c) v))])
         | Done r \<Rightarrow> c)
      else c)"

fun run :: "vote_call list \<Rightarrow> nat list \<Rightarrow> state \<times> progress list \<Rightarrow> state \<times> progress list" where
  "run cs [] c = c"
| "run cs (k # ks) c = run cs ks (step cs k c)"

text \<open>The row a call of voter \<open>u\<close> writes, and the calls the action accepts.\<close>

definition payload_of :: "jstring \<Rightarrow> vote_call \<Rightarrow> vote" where
  "payload_of u c = \<lparr>votes_poll_id = call_poll c, votes_user_id = u,
     votes_option_index = call_index c, votes_created_at = now (call_env c)\<rparr>"

definition accepted :: "jstring \<Rightarrow> jstring \<Rightarrow> poll \<Rightarrow> vote_call \<Rightarrow> bool" where
  "accepted pollId u p c =
     (call_poll c = pollId \<and> auth (call_env c) = SignedIn u \<and> read_fault (call_env c) = None
      \<and> write_fault (call_env c) = None \<and> is_uuid (call_env c) pollId \<and> isInteger (call_index c)
      \<and> \<not> lessThanZero (call_index c) \<and> \<not> atLeastLength (call_index c) (length (polls_options p)))"

text \<open>What every step of accepted calls of one voter on one poll keeps.\<close>

definition one_row_invariant ::
  "vote_call list \<Rightarrow> jstring \<Rightarrow> jstring \<Rightarrow> state \<Rightarrow> state \<times> progress list \<Rightarrow> bool" where
  "one_row_invariant cs pollId u s0 c =
     (length (snd c) = length cs \<and> polls (fst c) = polls s0
      \<and> other_votes pollId u (fst c) = other_votes pollId u s0
      \<and> length (votes_of pollId u (fst c)) \<le> 1
      \<and> (\<forall>j<length cs.
            (\<forall>v. snd c ! j = Ready v \<longrightarrow> v = payload_of u (cs ! j))
          \<and> (\<forall>r. snd c ! j = Done r \<longrightarrow> r = [(''error'', Null)]
                \<and> (\<exists>i<length cs. votes_of pollId u (fst c) = [payload_of u (cs ! i)]))))"

subsection \<open>A small world to run the actions in\<close>

text \<open>
  One poll of \<open>alice\<close>, a profile that makes \<open>root\<close> an admin, and a reachable
  database. The uuid format is stood for by the length of 36 code units; the properties
  below hold for every format.
\<close>

definition color_poll_id :: jstring where
  "color_poll_id = js ''3f2b8c1e-5a4d-4e6f-9a7b-0c1d2e3f4a5b''"

definition color_poll :: poll where
  "color_poll = \<lparr>polls_id = color_poll_id, polls_question = js ''Best color?'',
     polls_options = [js ''Red'', js ''Blue''], polls_user_id = js ''alice'', polls_created_at = 1\<rparr>"

definition world :: state where
  "world = \<lparr>polls = [color_poll], votes = [],
     profiles = [\<lparr>profiles_id = js ''root'', profiles_role = js ''admin''\<rparr>], revalidated = []\<rparr>"

definition session :: "auth_response \<Rightarrow> timestamp \<Rightarrow> env" where
  "session a t = \<lparr>auth = a, read_fault = None, write_fault = None,
     single_message = ''JSON object requested, multiple (or no) rows returned'',
     fresh_id = js ''7d9e0f1a-2b3c-4d5e-8f6a-1b2c3d4e5f6a'', now = t, cascade = True,
     is_uuid = (\<lambda>i. length i = 36), default_message = (\<lambda>i. ''Invalid input'')\<rparr>"

definition recolor_form :: form_data where
  "recolor_form = [(''question'', Field (js ''Worst color?'')),
     (''options'', Field (js ''Green'')), (''options'', Field (js '' Pink ''))]"

text \<open>The built-in messages of zod 3, and two more forms.\<close>

fun zod_message :: "issue \<Rightarrow> string" where
  "zod_message QuestionNotString = ''Expected string, received object''"
| "zod_message QuestionTooShort = ''String must contain at least 5 character(s)''"
| "zod_message QuestionTooLong = ''String must contain at most 1000 character(s)''"
| "zod_message OptionsTooFew = ''Array must contain at least 2 element(s)''"
| "zod_message OptionsTooMany = ''Array must contain at most 50 element(s)''"
| "zod_message (OptionTooShort i) = ''String must contain at least 1 character(s)''"
| "zod_message (OptionTooLong i) = ''String must contain at most 300 character(s)''"
| "zod_message PollIdNotUuid = ''Invalid uuid''"
| "zod_message IndexNotNumber = ''Expected number, received nan''"
| "zod_message IndexNotInteger = ''Expected integer, received float''"
| "zod_message IndexNegative = ''Number must be greater than or equal to 0''"

definition crowded_form :: form_data where
  "crowded_form = (''question'', Field (js ''Best color?'')) # replicate 51 (''options'', Field (js '' a''))"

definition odd_form :: form_data where
  "odd_form = [(''options'', Field (js ''Red'')), (''title'', Field (js ''x'')), (''options'', File),
     (''options'', Field []), (''options'', Field (replicate 301 0x61))]"

section \<open>Storage lemmas\<close>

lemma select_poll_found:
  assumes "read_fault e = None" and "filter (\<lambda>p. polls_id p = i) (polls s) = [p]"
  shows "select_poll e s i = Inr p"
  using assms by (simp add: select_poll_def single_def)

lemma select_poll_missing:
  assumes "\<forall>p\<in>set (polls s). polls_id p \<noteq> i"
  shows "select_poll e s i = Inl (case read_fault e of Some m \<Rightarrow> m | None \<Rightarrow> single_message e)"
proof -
  have "filter (\<lambda>p. polls_id p = i) (polls s) = []"
    using assms by (simp add: filter_empty_conv)
  then show ?thesis
    by (simp add: select_poll_def single_def split: option.splits)
qed

lemma SubmitVoteSchema_valid:
  assumes "is_uuid e pollId" and "isInteger i" and "\<not> lessThanZero i"
  shows "SubmitVoteSchema e pollId i = Inr (pollId, i)"
  using assms by (cases i) (simp_all add: SubmitVoteSchema_def vote_issues_def)

lemma filter_key_map_replace:
  "filter K (map (\<lambda>w. if K w then v else w) rows) = replicate (length (filter K rows)) v" if "K v"
  using that by (induction rows) simp_all

lemma filter_other_map_replace:
  "filter (\<lambda>w. \<not> K w) (map (\<lambda>w. if K w then v else w) rows) = filter (\<lambda>w. \<not> K w) rows" if "K v"
  using that by (induction rows) simp_all

lemma same_key_eq:
  assumes "votes_poll_id v = pollId" and "votes_user_id v = u"
  shows "same_key v = (\<lambda>w. votes_poll_id w = pollId \<and> votes_user_id w = u)"
proof (rule ext)
  fix w
  show "same_key v w = (votes_poll_id w = pollId \<and> votes_user_id w = u)"
    unfolding same_key_def assms by (rule arg_cong2 [where f = "(\<and>)"]) (rule eq_commute)+
qed

lemma upsert_rows_key:
  assumes "votes_poll_id v = pollId" and "votes_user_id v = u"
    and "length (filter (\<lambda>w. votes_poll_id w = pollId \<and> votes_user_id w = u) rows) \<le> 1"
  shows "filter (\<lambda>w. votes_poll_id w = pollId \<and> votes_user_id w = u) (upsert_rows v rows) = [v]"
proof -
  let ?K = "\<lambda>w. votes_poll_id w = pollId \<and> votes_user_id w = u"
  have sk: "same_key v = ?K" using assms(1,2) by (rule same_key_eq)
  have kv: "?K v" using assms(1,2) by (rule conjI)
  show ?thesis
  proof (cases "list_ex ?K rows")
    case True
    then have "filter ?K rows \<noteq> []" by (simp add: list_ex_iff filter_empty_conv)
    with assms(3) have "length (filter ?K rows) = 1" by (cases "filter ?K rows") simp_all
    then have "filter ?K (map (\<lambda>w. if ?K w then v else w) rows) = [v]"
      using filter_key_map_replace [of ?K v rows, OF kv] by simp
    then show ?thesis using True by (simp add: upsert_rows_def sk)
  next
    case False
    then have "filter ?K rows = []" by (simp add: list_ex_iff filter_empty_conv)
    then show ?thesis using False kv by (simp add: upsert_rows_def sk)
  qed
qed

lemma upsert_rows_other:
  assumes "votes_poll_id v = pollId" and "votes_user_id v = u"
  shows "filter (\<lambda>w. \<not> (votes_poll_id w = pollId \<and> votes_user_id w = u)) (upsert_rows v rows)
       = filter (\<lambda>w. \<not> (votes_poll_id w = pollId \<and> votes_user_id w = u)) rows"
proof -
  let ?K = "\<lambda>w. votes_poll_id w = pollId \<and> votes_user_id w = u"
  have sk: "same_key v = ?K" using assms(1,2) by (rule same_key_eq)
  have kv: "?K v" using assms(1,2) by (rule conjI)
  have "filter (\<lambda>w. \<not> ?K w) (map (\<lambda>w. if ?K w then v else w) rows) = filter (\<lambda>w. \<not> ?K w) rows"
    using filter_other_map_replace [of ?K v rows, OF kv] .
  then show ?thesis using kv by (simp add: upsert_rows_def sk)
qed

lemma upsert_rows_member: "v \<in> set (upsert_rows v rows)"
  by (auto simp add: upsert_rows_def list_ex_iff same_key_def)

lemma submitVote_accepted:
  assumes "auth e = SignedIn u" and "read_fault e = None" and "write_fault e = None"
    and "is_uuid e pollId" and "isInteger i" and "\<not> lessThanZero i"
    and "filter (\<lambda>p. polls_id p = pollId) (polls s) = [p]"
    and "\<not> atLeastLength i (length (polls_options p))"
  shows "submitVote e s pollId i =
     ([(''error'', Null)],
      revalidatePath (PollPath pollId)
        (s\<lparr>votes := upsert_rows \<lparr>votes_poll_id = pollId, votes_user_id = u,
                                votes_option_index = i, votes_created_at = now e\<rparr> (votes s)\<rparr>))"
  using assms
  by (simp add: submitVote_def SubmitVoteSchema_valid getAuthenticatedUser_def select_poll_found
      upsert_vote_def)

lemma world_lookup:
  "filter (\<lambda>p. polls_id p = color_poll_id) (polls world) = [color_poll]"
  by (simp add: world_def color_poll_def)

lemma color_poll_id_length: "length color_poll_id = 36"
  by (simp add: color_poll_id_def js_def)

section \<open>Validation lemmas\<close>

lemma option_issues_length:
  "length (option_issues i opt) = (if length opt < 1 \<or> 300 < length opt then 1 else 0)"
  by (simp add: option_issues_def)

lemma items_issues_length:
  "length (concat (map (\<lambda>(i, opt). option_issues i opt) (enumerate n os))) =
     length (filter (\<lambda>opt. length opt < 1 \<or> 300 < length opt) os)"
  by (induction os arbitrary: n) (simp_all add: option_issues_length)

lemma question_issues_length:
  "length (question_issues q) = (if length q < 5 \<or> 1000 < length q then 1 else 0)"
  by (simp add: question_issues_def)

lemma options_issues_length:
  "length (options_issues os) =
     (if length os < 2 \<or> 50 < length os then 1 else 0) +
     length (filter (\<lambda>opt. length opt < 1 \<or> 300 < length opt) os)"
  by (simp add: options_issues_def items_issues_length)

lemma poll_issues_length:
  "length (poll_issues (Field q) os) =
     (if length q < 5 \<or> 1000 < length q then 1 else 0) +
     (if length os < 2 \<or> 50 < length os then 1 else 0) +
     length (filter (\<lambda>opt. length opt < 1 \<or> 300 < length opt) os)"
  by (simp add: question_issues_length options_issues_length)

lemma trim_hd:
  assumes "trim s \<noteq> []"
  shows "\<not> isWhiteSpace (hd (trim s))"
proof -
  let ?t = "dropWhile isWhiteSpace s"
  let ?r = "dropWhile isWhiteSpace (rev ?t)"
  have r: "?r \<noteq> []" using assms by (simp add: trim_def)
  have t: "?t \<noteq> []" using r by (metis dropWhile.simps(1) rev.simps(1))
  have "hd (trim s) = last ?r" using r by (simp add: trim_def hd_rev)
  also have "\<dots> = last (rev ?t)"
    using r by (metis takeWhile_dropWhile_id last_appendR)
  also have "\<dots> = hd ?t" using t by (simp add: last_rev)
  finally show ?thesis using t hd_dropWhile [of isWhiteSpace s] by simp
qed

lemma trim_last:
  assumes "trim s \<noteq> []"
  shows "\<not> isWhiteSpace (last (trim s))"
proof -
  let ?r = "dropWhile isWhiteSpace (rev (dropWhile isWhiteSpace s))"
  have r: "?r \<noteq> []" using assms by (simp add: trim_def)
  have "last (trim s) = hd ?r" using r by (simp add: trim_def last_rev)
  then show ?thesis using r hd_dropWhile [of isWhiteSpace "rev (dropWhile isWhiteSpace s)"] by simp
qed

lemma form_options_member:
  assumes "opt \<in> set (form_options fd)"
  shows "opt \<noteq> [] \<and> \<not> isWhiteSpace (hd opt) \<and> \<not> isWhiteSpace (last opt)
       \<and> opt \<in> (\<lambda>v. trim (String v)) ` set (form_getAll fd ''options'')"
proof -
  from assms obtain v where v: "v \<in> set (form_getAll fd ''options'')" "opt = trim (String v)" "opt \<noteq> []"
    by (auto simp add: form_options_def)
  then show ?thesis using trim_hd [of "String v"] trim_last [of "String v"] by auto
qed

lemma trim_split:
  "\<exists>a b. s = a @ trim s @ b \<and> (\<forall>c\<in>set a. isWhiteSpace c) \<and> (\<forall>c\<in>set b. isWhiteSpace c)"
proof -
  let ?t = "dropWhile isWhiteSpace s"
  let ?a = "takeWhile isWhiteSpace s"
  let ?b = "rev (takeWhile isWhiteSpace (rev ?t))"
  have "rev (takeWhile isWhiteSpace (rev ?t) @ dropWhile isWhiteSpace (rev ?t)) = rev (rev ?t)"
    by (simp only: takeWhile_dropWhile_id)
  then have "rev (dropWhile isWhiteSpace (rev ?t)) @ ?b = ?t"
    by (simp only: rev_append rev_rev_ident)
  then have t: "?t = trim s @ ?b" by (simp only: trim_def)
  have "s = ?a @ ?t" by simp
  with t have "s = ?a @ trim s @ ?b" by simp
  moreover have "\<forall>c\<in>set ?a. isWhiteSpace c" by (auto dest: set_takeWhileD)
  moreover have "\<forall>c\<in>set ?b. isWhiteSpace c" by (auto dest: set_takeWhileD)
  ultimately show ?thesis by blast
qed

lemma form_options_entries:
  "form_options fd =
     filter (\<lambda>opt. opt \<noteq> []) (map (\<lambda>v. trim (String v)) (map snd (filter (\<lambda>x. fst x = ''options'') fd)))"
proof -
  have "filter (\<lambda>opt. opt \<noteq> []) (map (\<lambda>v. trim (String v)) (filter truthy vs))
      = filter (\<lambda>opt. opt \<noteq> []) (map (\<lambda>v. trim (String v)) vs)" for vs
  proof (induction vs)
    case Nil
    show ?case by simp
  next
    case (Cons v vs)
    then show ?case by (cases v) (simp_all add: trim_def)
  qed
  then show ?thesis by (simp add: form_options_def form_getAll_def)
qed

lemma form_question_entry:
  assumes "form_question fd = Field q"
  shows "map_of fd ''question'' = Some (Field q) \<or> (map_of fd ''question'' = None \<and> q = [])"
  using assms by (auto simp add: form_question_def form_get_def split: option.splits)

lemma items_issues_explicit:
  assumes "\<forall>opt\<in>set os. opt \<noteq> []"
  shows "concat (map (\<lambda>(i, opt). option_issues i opt) (enumerate n os)) =
         concat (map (\<lambda>(i, opt). if 300 < length opt then [OptionTooLong i] else []) (enumerate n os))"
  using assms
proof (induction os arbitrary: n)
  case Nil
  show ?case by simp
next
  case (Cons opt os)
  then have "opt \<noteq> []" by simp
  then have "\<not> length opt < 1" by (cases opt) simp_all
  then show ?case using Cons by (simp add: option_issues_def)
qed

lemma poll_issues_explicit:
  assumes "\<forall>opt\<in>set os. opt \<noteq> []"
  shows "poll_issues (Field q) os =
     (if length q < 5 then [QuestionTooShort] else []) @
     (if 1000 < length q then [QuestionTooLong] else []) @
     (if length os < 2 then [OptionsTooFew] else []) @
     (if 50 < length os then [OptionsTooMany] else []) @
     concat (map (\<lambda>(i, opt). if 300 < length opt then [OptionTooLong i] else []) (enumerate 0 os))"
  using items_issues_explicit [OF assms, of 0]
  by (simp add: question_issues_def options_issues_def)

lemma schema_rejects:
  "poll_issues v os \<noteq> [] \<Longrightarrow> CreateUpdatePollSchema v os = Inl (poll_issues v os)"
  by (cases v) (simp_all del: poll_issues.simps)

lemma schema_accepts:
  "poll_issues v os = [] \<Longrightarrow> \<exists>q. v = Field q \<and> CreateUpdatePollSchema v os = Inr (q, os)"
  by (cases v) simp_all

lemma schema_Inr:
  "CreateUpdatePollSchema v os = Inr (q, os') \<Longrightarrow> v = Field q \<and> os' = os \<and> poll_issues v os = []"
  by (cases v) (auto simp del: poll_issues.simps split: if_splits)

lemma recolor_form_question: "form_question recolor_form = Field (js ''Worst color?'')"
  by (simp add: recolor_form_def form_question_def form_get_def)

lemma recolor_form_options: "form_options recolor_form = [js ''Green'', js ''Pink'']"
  by (simp add: recolor_form_def form_options_def form_getAll_def trim_def js_def isWhiteSpace_def)

lemma recolor_form_valid: "poll_issues (form_question recolor_form) (form_options recolor_form) = []"
  by (simp add: recolor_form_question recolor_form_options question_issues_def options_issues_def
      option_issues_def js_def)

lemma submitVote_step:
  assumes "auth e = SignedIn u" and "read_fault e = None" and "write_fault e = None"
    and "is_uuid e pollId" and "isInteger i" and "\<not> lessThanZero i"
    and "filter (\<lambda>p. polls_id p = pollId) (polls s) = [p]"
    and "\<not> atLeastLength i (length (polls_options p))"
    and "length (votes_of pollId u s) \<le> 1"
  shows "polls (snd (submitVote e s pollId i)) = polls s"
    and "votes_of pollId u (snd (submitVote e s pollId i)) =
           [\<lparr>votes_poll_id = pollId, votes_user_id = u, votes_option_index = i, votes_created_at = now e\<rparr>]"
    and "other_votes pollId u (snd (submitVote e s pollId i)) = other_votes pollId u s"
proof -
  let ?v = "\<lparr>votes_poll_id = pollId, votes_user_id = u, votes_option_index = i, votes_created_at = now e\<rparr>"
  have eq: "snd (submitVote e s pollId i) =
      revalidatePath (PollPath pollId) (s\<lparr>votes := upsert_rows ?v (votes s)\<rparr>)"
    using submitVote_accepted [OF assms(1-8)] by simp
  show "polls (snd (submitVote e s pollId i)) = polls s"
    by (simp add: eq revalidatePath_def)
  have "filter (\<lambda>w. votes_poll_id w = pollId \<and> votes_user_id w = u) (upsert_rows ?v (votes s)) = [?v]"
    using assms(9) by (intro upsert_rows_key) (simp_all add: votes_of_def)
  then show "votes_of pollId u (snd (submitVote e s pollId i)) = [?v]"
    by (simp add: eq revalidatePath_def votes_of_def)
  have "filter (\<lambda>w. \<not> (votes_poll_id w = pollId \<and> votes_user_id w = u)) (upsert_rows ?v (votes s))
      = filter (\<lambda>w. \<not> (votes_poll_id w = pollId \<and> votes_user_id w = u)) (votes s)"
    by (intro upsert_rows_other) simp_all
  then show "other_votes pollId u (snd (submitVote e s pollId i)) = other_votes pollId u s"
    by (simp add: eq revalidatePath_def other_votes_def)
qed

section \<open>Interleaving lemmas\<close>

lemma submitVote_request_then_write:
  "submitVote e s pollId i =
     (case vote_request e s pollId i of Inl r \<Rightarrow> (r, s) | Inr v \<Rightarrow> vote_write e s v)"
  by (simp add: submitVote_def vote_request_def vote_write_def
      split: sum.splits option.splits prod.splits)

lemma vote_request_ignores_votes:
  "vote_request e (s\<lparr>votes := vs\<rparr>) pollId i = vote_request e s pollId i"
proof -
  have "select_poll e (s\<lparr>votes := vs\<rparr>) = select_poll e s"
    by (rule ext) (simp add: select_poll_def)
  then show ?thesis unfolding vote_request_def by (rule ssubst) (rule refl)
qed

lemma run_alone:
  "run [c] [0, 0] (s, [NotStarted]) =
     (snd (submitVote (call_env c) s (call_poll c) (call_index c)),
      [Done (fst (submitVote (call_env c) s (call_poll c) (call_index c)))])"
  by (simp add: step_def submitVote_request_then_write split: sum.splits)

lemma vote_request_accepted:
  assumes "accepted pollId u p c" and "filter (\<lambda>p. polls_id p = pollId) (polls s) = [p]"
  shows "vote_request (call_env c) s (call_poll c) (call_index c) = Inr (payload_of u c)"
proof -
  from assms(1) have a: "call_poll c = pollId" "auth (call_env c) = SignedIn u"
    "read_fault (call_env c) = None" "is_uuid (call_env c) pollId" "isInteger (call_index c)"
    "\<not> lessThanZero (call_index c)" "\<not> atLeastLength (call_index c) (length (polls_options p))"
    by (simp_all add: accepted_def)
  have v: "SubmitVoteSchema (call_env c) pollId (call_index c) = Inr (pollId, call_index c)"
    using a(4-6) by (rule SubmitVoteSchema_valid)
  have l: "select_poll (call_env c) s pollId = Inr p"
    using a(3) assms(2) by (rule select_poll_found)
  show ?thesis using a(1,2,6,7) v l
    by (simp add: vote_request_def getAuthenticatedUser_def payload_of_def)
qed

lemma vote_write_accepted:
  assumes "write_fault e = None"
  shows "vote_write e s v =
     ([(''error'', Null)], revalidatePath (PollPath (votes_poll_id v)) (s\<lparr>votes := upsert_rows v (votes s)\<rparr>))"
  using assms by (simp add: vote_write_def upsert_vote_def)

lemma filter_map_replace_foreign:
  assumes "\<not> K v" and "\<And>w. S w \<Longrightarrow> \<not> K w"
  shows "filter K (map (\<lambda>w. if S w then v else w) rows) = filter K rows"
  using assms by (induction rows) simp_all

lemma filter_append_foreign:
  assumes "\<not> K v"
  shows "filter K (rows @ [v]) = filter K rows"
  using assms by simp

lemma upsert_rows_foreign:
  assumes "\<not> (votes_poll_id v = pollId \<and> votes_user_id v = u)"
  shows "filter (\<lambda>w. votes_poll_id w = pollId \<and> votes_user_id w = u) (upsert_rows v rows)
       = filter (\<lambda>w. votes_poll_id w = pollId \<and> votes_user_id w = u) rows"
proof -
  let ?K = "\<lambda>w. votes_poll_id w = pollId \<and> votes_user_id w = u"
  have nk: "\<not> ?K v" using assms .
  have sk: "\<not> ?K w" if "same_key v w" for w
    using that nk unfolding same_key_def by metis
  show ?thesis
  proof (cases "list_ex (same_key v) rows")
    case True
    then show ?thesis
      unfolding upsert_rows_def using filter_map_replace_foreign [of ?K v "same_key v" rows, OF nk sk]
      by simp
  next
    case False
    then show ?thesis
      unfolding upsert_rows_def using filter_append_foreign [of ?K v rows, OF nk]
      by simp
  qed
qed

lemma vote_write_at_most_one:
  assumes "length (votes_of pollId u s) \<le> 1"
  shows "length (votes_of pollId u (snd (vote_write e s v))) \<le> 1"
proof (cases "write_fault e")
  case (Some m)
  then show ?thesis using assms by (simp add: vote_write_def upsert_vote_def)
next
  case None
  show ?thesis
  proof (cases "votes_poll_id v = pollId \<and> votes_user_id v = u")
    case True
    then have "filter (\<lambda>w. votes_poll_id w = pollId \<and> votes_user_id w = u) (upsert_rows v (votes s)) = [v]"
      using assms by (intro upsert_rows_key) (simp_all add: votes_of_def)
    then show ?thesis
      by (simp add: vote_write_accepted [OF None] revalidatePath_def votes_of_def)
  next
    case False
    then have "filter (\<lambda>w. votes_poll_id w = pollId \<and> votes_user_id w = u) (upsert_rows v (votes s))
        = filter (\<lambda>w. votes_poll_id w = pollId \<and> votes_user_id w = u) (votes s)"
      by (rule upsert_rows_foreign)
    then show ?thesis using assms
      by (simp add: vote_write_accepted [OF None] revalidatePath_def votes_of_def)
  qed
qed

lemma step_at_most_one:
  assumes "length (votes_of pollId u (fst c)) \<le> 1"
  shows "length (votes_of pollId u (fst (step cs k c))) \<le> 1"
  using assms vote_write_at_most_one [of pollId u "fst c"]
  by (simp add: step_def split: progress.splits sum.splits)

lemma run_at_most_one:
  assumes "length (votes_of pollId u (fst c)) \<le> 1"
  shows "length (votes_of pollId u (fst (run cs ks c))) \<le> 1"
  using assms
proof (induction ks arbitrary: c)
  case Nil
  then show ?case by simp
next
  case (Cons k ks)
  have "length (votes_of pollId u (fst (step cs k c))) \<le> 1"
    using Cons.prems by (rule step_at_most_one)
  then have "length (votes_of pollId u (fst (run cs ks (step cs k c)))) \<le> 1"
    by (rule Cons.IH)
  then show ?case by simp
qed

lemma step_invariant:
  assumes acc: "\<forall>c\<in>set cs. accepted pollId u p c"
    and poll: "filter (\<lambda>p. polls_id p = pollId) (polls s0) = [p]"
    and inv: "one_row_invariant cs pollId u s0 c"
  shows "one_row_invariant cs pollId u s0 (step cs k c)"
proof (cases "k < length cs \<and> k < length (snd c)")
  case False
  then have "step cs k c = c" unfolding step_def by (rule if_not_P)
  then show ?thesis using inv by simp
next
  case True
  then have k: "k < length cs" "k < length (snd c)" by simp_all
  then have ak: "accepted pollId u p (cs ! k)" using acc by simp
  from inv have len: "length (snd c) = length cs" and pl: "polls (fst c) = polls s0"
    and ot: "other_votes pollId u (fst c) = other_votes pollId u s0"
    and one: "length (votes_of pollId u (fst c)) \<le> 1"
    and pr: "\<And>j v. j < length cs \<Longrightarrow> snd c ! j = Ready v \<Longrightarrow> v = payload_of u (cs ! j)"
    and dn: "\<And>j r. j < length cs \<Longrightarrow> snd c ! j = Done r \<Longrightarrow>
          r = [(''error'', Null)] \<and> (\<exists>i<length cs. votes_of pollId u (fst c) = [payload_of u (cs ! i)])"
    by (simp_all add: one_row_invariant_def)
  show ?thesis
  proof (cases "snd c ! k")
    case NotStarted
    have "vote_request (call_env (cs ! k)) (fst c) (call_poll (cs ! k)) (call_index (cs ! k))
        = Inr (payload_of u (cs ! k))"
      using ak poll pl by (intro vote_request_accepted) simp_all
    then have st: "step cs k c = (fst c, (snd c)[k := Ready (payload_of u (cs ! k))])"
      using True NotStarted by (simp add: step_def)
    show ?thesis
      unfolding st one_row_invariant_def using len pl ot one pr dn k
      by (auto simp add: nth_list_update)
  next
    case (Ready v)
    then have v: "v = payload_of u (cs ! k)" using pr k(1) by blast
    have w: "write_fault (call_env (cs ! k)) = None" using ak by (simp add: accepted_def)
    have cp: "call_poll (cs ! k) = pollId" using ak by (simp add: accepted_def)
    let ?s' = "revalidatePath (PollPath (votes_poll_id v)) ((fst c)\<lparr>votes := upsert_rows v (votes (fst c))\<rparr>)"
    have st: "step cs k c = (?s', (snd c)[k := Done [(''error'', Null)]])"
      using True Ready by (simp add: step_def vote_write_accepted [OF w])
    have key: "votes_poll_id v = pollId" "votes_user_id v = u"
      using v cp by (simp_all add: payload_of_def)
    have "filter (\<lambda>w. votes_poll_id w = pollId \<and> votes_user_id w = u) (upsert_rows v (votes (fst c))) = [v]"
      using key one by (intro upsert_rows_key) (simp_all add: votes_of_def)
    then have vo: "votes_of pollId u ?s' = [payload_of u (cs ! k)]"
      using v by (simp add: votes_of_def revalidatePath_def)
    have "filter (\<lambda>w. \<not> (votes_poll_id w = pollId \<and> votes_user_id w = u)) (upsert_rows v (votes (fst c)))
        = filter (\<lambda>w. \<not> (votes_poll_id w = pollId \<and> votes_user_id w = u)) (votes (fst c))"
      using key by (rule upsert_rows_other)
    then have oo: "other_votes pollId u ?s' = other_votes pollId u s0"
      using ot by (simp add: other_votes_def revalidatePath_def)
    have pp: "polls ?s' = polls s0" using pl by (simp add: revalidatePath_def)
    have ex: "\<exists>i<length cs. votes_of pollId u ?s' = [payload_of u (cs ! i)]"
      using vo k(1) by blast
    have "(\<forall>v. ((snd c)[k := Done [(''error'', Null)]]) ! j = Ready v \<longrightarrow> v = payload_of u (cs ! j))
        \<and> (\<forall>r. ((snd c)[k := Done [(''error'', Null)]]) ! j = Done r \<longrightarrow> r = [(''error'', Null)]
              \<and> (\<exists>i<length cs. votes_of pollId u ?s' = [payload_of u (cs ! i)]))"
      if "j < length cs" for j
    proof (cases "j = k")
      case True
      then show ?thesis using k(2) ex by simp
    next
      case False
      then have "((snd c)[k := Done [(''error'', Null)]]) ! j = snd c ! j" by simp
      then show ?thesis using pr [OF that] dn [OF that] ex by auto
    qed
    then show ?thesis
      unfolding st one_row_invariant_def using len pp oo vo by simp
  next
    case (Done r)
    then have "step cs k c = c" using True by (simp add: step_def)
    then show ?thesis using inv by simp
  qed
qed

lemma invariant_done:
  assumes "one_row_invariant cs pollId u s0 c" and "j < length cs" and "snd c ! j = Done r"
  shows "r = [(''error'', Null)] \<and> (\<exists>i<length cs. votes_of pollId u (fst c) = [payload_of u (cs ! i)])"
  using assms by (simp add: one_row_invariant_def)

lemma run_invariant:
  assumes "\<forall>c\<in>set cs. accepted pollId u p c"
    and "filter (\<lambda>p. polls_id p = pollId) (polls s0) = [p]"
    and "one_row_invariant cs pollId u s0 c"
  shows "one_row_invariant cs pollId u s0 (run cs ks c)"
  using assms(3)
proof (induction ks arbitrary: c)
  case Nil
  then show ?case by simp
next
  case (Cons k ks)
  have "one_row_invariant cs pollId u s0 (step cs k c)"
    using assms(1,2) Cons.prems by (rule step_invariant)
  then have "one_row_invariant cs pollId u s0 (run cs ks (step cs k c))" by (rule Cons.IH)
  then show ?case by simp
qed

section \<open>Creating a poll\<close>

text \<open>
  C5. \<open>createPoll\<close> validates the question read from the form (the first entry named
  \<open>question\<close>, or the empty string) and the options left after trimming every entry
  named \<open>options\<close> and dropping the empty ones: exactly those, in their order, where
  trimming removes the white space at both ends and nothing else. When the question has
  fewer than 5 or more than 1000 code units, or fewer than 2 or more than 50 options are
  left, or an option has more than 300 code units, the answer is the messages of the
  issues joined by a comma, whatever the session, and the state is left as it was. The
  issues are one for the question, one for the number of options, and one for each
  option of a wrong length, in this order.
\<close>

theorem createPoll_rejects_invalid_input:
  assumes "form_question fd = Field q" and "os = form_options fd"
    and "length q < 5 \<or> 1000 < length q \<or> length os < 2 \<or> 50 < length os
         \<or> (\<exists>opt\<in>set os. length opt < 1 \<or> 300 < length opt)"
  shows "createPoll e s fd = ([(''error'', Message (issues_text e (poll_issues (Field q) os)))], s)
       \<and> length (poll_issues (Field q) os) =
           (if length q < 5 \<or> 1000 < length q then 1 else 0) +
           (if length os < 2 \<or> 50 < length os then 1 else 0) +
           length (filter (\<lambda>opt. length opt < 1 \<or> 300 < length opt) os)
       \<and> (\<forall>opt\<in>set os. opt \<noteq> [] \<and> \<not> isWhiteSpace (hd opt) \<and> \<not> isWhiteSpace (last opt)
             \<and> opt \<in> (\<lambda>v. trim (String v)) ` set (form_getAll fd ''options''))
       \<and> (map_of fd ''question'' = Some (Field q) \<or> (map_of fd ''question'' = None \<and> q = []))
       \<and> os = filter (\<lambda>opt. opt \<noteq> [])
                (map (\<lambda>v. trim (String v)) (map snd (filter (\<lambda>x. fst x = ''options'') fd)))
       \<and> (\<forall>t. \<exists>a b. t = a @ trim t @ b \<and> (\<forall>c\<in>set a. isWhiteSpace c) \<and> (\<forall>c\<in>set b. isWhiteSpace c))
       \<and> poll_issues (Field q) os =
           (if length q < 5 then [QuestionTooShort] else []) @
           (if 1000 < length q then [QuestionTooLong] else []) @
           (if length os < 2 then [OptionsTooFew] else []) @
           (if 50 < length os then [OptionsTooMany] else []) @
           concat (map (\<lambda>(i, opt). if 300 < length opt then [OptionTooLong i] else []) (enumerate 0 os))
       \<and> issues_text e (poll_issues (Field q) os) = join '', '' (map (message e) (poll_issues (Field q) os))"
proof -
  have "filter (\<lambda>opt. length opt < 1 \<or> 300 < length opt) os \<noteq> []"
    if "\<exists>opt\<in>set os. length opt < 1 \<or> 300 < length opt"
    using that by (simp add: filter_empty_conv)
  then have "0 < length (poll_issues (Field q) os)"
    using assms(3) unfolding poll_issues_length by (auto split: if_splits)
  then have "poll_issues (Field q) os \<noteq> []" by auto
  then have "CreateUpdatePollSchema (Field q) os = Inl (poll_issues (Field q) os)"
    by (simp del: poll_issues.simps)
  then have 1: "createPoll e s fd = ([(''error'', Message (issues_text e (poll_issues (Field q) os)))], s)"
    using assms(1,2) by (simp add: createPoll_def del: poll_issues.simps CreateUpdatePollSchema.simps)
  have 3: "\<forall>opt\<in>set os. opt \<noteq> [] \<and> \<not> isWhiteSpace (hd opt) \<and> \<not> isWhiteSpace (last opt)
             \<and> opt \<in> (\<lambda>v. trim (String v)) ` set (form_getAll fd ''options'')"
    using form_options_member [of _ fd] assms(2) by blast
  then have ne: "\<forall>opt\<in>set os. opt \<noteq> []" by blast
  have 4: "map_of fd ''question'' = Some (Field q) \<or> (map_of fd ''question'' = None \<and> q = [])"
    using assms(1) by (rule form_question_entry)
  have 5: "os = filter (\<lambda>opt. opt \<noteq> [])
                (map (\<lambda>v. trim (String v)) (map snd (filter (\<lambda>x. fst x = ''options'') fd)))"
    unfolding assms(2) by (rule form_options_entries)
  have 6: "\<forall>t. \<exists>a b. t = a @ trim t @ b \<and> (\<forall>c\<in>set a. isWhiteSpace c) \<and> (\<forall>c\<in>set b. isWhiteSpace c)"
    using trim_split by blast
  have 8: "issues_text e (poll_issues (Field q) os) = join '', '' (map (message e) (poll_issues (Field q) os))"
    by (simp only: issues_text_def)
  show ?thesis
    using 1 poll_issues_length [of q os] 3 4 5 6 poll_issues_explicit [OF ne, of q] 8
    by (intro conjI)
qed

theorem createPoll_rejects_invalid_input_witness:
  "createPoll (session NoUser 2) world
      [(''question'', Field (js ''Hi?'')), (''options'', Field (js '' Red '')), (''options'', Field (js ''   ''))]
     = ([(''error'', Message ''Question is too short, At least two options are required'')], world)
   \<and> form_options crowded_form = replicate 51 (js ''a'')
   \<and> createPoll ((session NoUser 2)\<lparr>default_message := zod_message\<rparr>) world crowded_form
     = ([(''error'', Message ''Array must contain at most 50 element(s)'')], world)
   \<and> form_question odd_form = Field []
   \<and> form_options odd_form = [js ''Red'', js ''[object File]'', replicate 301 0x61]
   \<and> createPoll ((session NoUser 2)\<lparr>default_message := zod_message\<rparr>) world odd_form
     = ([(''error'', Message ''Question is too short, String must contain at most 300 character(s)'')], world)"
proof -
  let ?fd = "[(''question'', Field (js ''Hi?'')), (''options'', Field (js '' Red '')), (''options'', Field (js ''   ''))]"
  let ?z = "(session NoUser 2)\<lparr>default_message := zod_message\<rparr>"
  have q: "form_question ?fd = Field (js ''Hi?'')"
    by (simp add: form_question_def form_get_def)
  have os: "[js ''Red''] = form_options ?fd"
    by (simp add: form_options_def form_getAll_def trim_def js_def isWhiteSpace_def)
  have bad: "length (js ''Hi?'') < 5" by (simp add: js_def)
  have "createPoll (session NoUser 2) world ?fd
      = ([(''error'', Message (issues_text (session NoUser 2) (poll_issues (Field (js ''Hi?'')) [js ''Red''])))], world)"
    using createPoll_rejects_invalid_input [of ?fd "js ''Hi?''" "[js ''Red'']" "session NoUser 2" world, OF q os] bad
    by blast
  moreover have "issues_text (session NoUser 2) (poll_issues (Field (js ''Hi?'')) [js ''Red''])
      = ''Question is too short, At least two options are required''"
    by (simp add: issues_text_def question_issues_def options_issues_def option_issues_def js_def)
  ultimately have 1: "createPoll (session NoUser 2) world ?fd
     = ([(''error'', Message ''Question is too short, At least two options are required'')], world)"
    by simp
  have cq: "form_question crowded_form = Field (js ''Best color?'')"
    by (simp add: crowded_form_def form_question_def form_get_def)
  have cos: "replicate 51 (js ''a'') = form_options crowded_form"
    by (simp add: crowded_form_def form_options_def form_getAll_def trim_def js_def isWhiteSpace_def)
  have cbad: "50 < length (replicate 51 (js ''a''))" by simp
  from createPoll_rejects_invalid_input [of crowded_form "js ''Best color?''" "replicate 51 (js ''a'')" ?z world, OF cq cos]
    cbad
  have c1: "createPoll ?z world crowded_form
      = ([(''error'', Message (issues_text ?z (poll_issues (Field (js ''Best color?'')) (replicate 51 (js ''a'')))))], world)"
    and c2: "poll_issues (Field (js ''Best color?'')) (replicate 51 (js ''a'')) =
           (if length (js ''Best color?'') < 5 then [QuestionTooShort] else []) @
           (if 1000 < length (js ''Best color?'') then [QuestionTooLong] else []) @
           (if length (replicate 51 (js ''a'')) < 2 then [OptionsTooFew] else []) @
           (if 50 < length (replicate 51 (js ''a'')) then [OptionsTooMany] else []) @
           concat (map (\<lambda>(i, opt). if 300 < length opt then [OptionTooLong i] else [])
             (enumerate 0 (replicate 51 (js ''a''))))"
    by blast+
  have "concat (map (\<lambda>(i, opt). if 300 < length opt then [OptionTooLong i] else [])
             (enumerate 0 (replicate 51 (js ''a'')))) = []"
    by (auto simp add: in_set_enumerate_eq js_def)
  then have "poll_issues (Field (js ''Best color?'')) (replicate 51 (js ''a'')) = [OptionsTooMany]"
    unfolding c2 by (simp add: js_def)
  then have 2: "createPoll ?z world crowded_form
     = ([(''error'', Message ''Array must contain at most 50 element(s)'')], world)"
    unfolding c1 by (simp add: issues_text_def session_def)
  have oq: "form_question odd_form = Field []"
    by (simp add: odd_form_def form_question_def form_get_def)
  have oos: "[js ''Red'', js ''[object File]'', replicate 301 0x61] = form_options odd_form"
    by (simp add: odd_form_def form_options_def form_getAll_def trim_def js_def isWhiteSpace_def)
  from createPoll_rejects_invalid_input [of odd_form "[]" "[js ''Red'', js ''[object File]'', replicate 301 0x61]" ?z world, OF oq oos]
  have o1: "createPoll ?z world odd_form
      = ([(''error'', Message (issues_text ?z (poll_issues (Field []) [js ''Red'', js ''[object File]'', replicate 301 0x61])))], world)"
    by simp
  have "poll_issues (Field []) [js ''Red'', js ''[object File]'', replicate 301 0x61] = [QuestionTooShort, OptionTooLong 2]"
    by (simp add: question_issues_def options_issues_def option_issues_def js_def)
  then have 3: "createPoll ?z world odd_form
     = ([(''error'', Message ''Question is too short, String must contain at most 300 character(s)'')], world)"
    unfolding o1 by (simp add: issues_text_def session_def)
  show ?thesis using 1 cos 2 oq oos 3 by simp
qed

section \<open>Deleting a poll\<close>

text \<open>
  C1. \<open>deletePoll\<close> compares the poll's owner with the caller and nothing else: a
  signed-in caller whose profile has the role \<open>admin\<close>, deleting an existing poll of
  another user, is answered "Forbidden" and the state is left as it was.
\<close>

theorem deletePoll_denies_admin_not_owner:
  assumes "i \<noteq> []" and "auth e = SignedIn u" and "read_fault e = None"
    and "filter (\<lambda>p. polls_id p = i) (polls s) = [p]" and "polls_user_id p \<noteq> u"
    and "profile_role e s u = Some (js ''admin'')"
  shows "deletePoll e s i = ([(''error'', Message ''Forbidden: you do not own this poll.'')], s)"
  using assms by (simp add: deletePoll_def getAuthenticatedUser_def select_poll_found)

theorem deletePoll_denies_admin_not_owner_witness:
  "profile_role (session (SignedIn (js ''root'')) 2) world (js ''root'') = Some (js ''admin'')
   \<and> polls_user_id color_poll = js ''alice''
   \<and> deletePoll (session (SignedIn (js ''root'')) 2) world color_poll_id
       = ([(''error'', Message ''Forbidden: you do not own this poll.'')], world)"
proof -
  have admin: "profile_role (session (SignedIn (js ''root'')) 2) world (js ''root'') = Some (js ''admin'')"
    by (simp add: profile_role_def single_def session_def world_def)
  have owner: "polls_user_id color_poll \<noteq> js ''root''"
    by (simp add: color_poll_def js_def)
  have "deletePoll (session (SignedIn (js ''root'')) 2) world color_poll_id
       = ([(''error'', Message ''Forbidden: you do not own this poll.'')], world)"
    using color_poll_id_length world_lookup owner admin
    by (intro deletePoll_denies_admin_not_owner [where u = "js ''root''" and p = color_poll])
      (auto simp add: session_def)
  then show ?thesis using admin by (simp add: color_poll_def)
qed

text \<open>
  With the poll in storage and the database taking the write, \<open>deletePoll\<close> succeeds
  exactly for the owner.
\<close>

lemma deletePoll_allows_owner_only:
  assumes "i \<noteq> []" and "auth e = SignedIn u" and "read_fault e = None" and "write_fault e = None"
    and "filter (\<lambda>p. polls_id p = i) (polls s) = [p]"
  shows "(fst (deletePoll e s i) = [(''error'', Null)]) = (polls_user_id p = u)"
  using assms by (simp add: deletePoll_def getAuthenticatedUser_def select_poll_found delete_poll_def)

section \<open>Voting\<close>

text \<open>
  C4. A call of \<open>submitVote\<close> with a well-formed poll identifier and an index that is an
  integer and not negative: when no poll has that identifier, or when the poll is read
  from storage and the index is at least the number of options it has now, the call
  fails and leaves the state, and so the table of votes, as it was. For a signed-in caller
  the answer is "Poll not found." in the first case and "Invalid option selected." in
  the second. The number of options is the one of the row just read; the action takes
  no count from its caller.
\<close>

theorem submitVote_checks_live_poll:
  assumes "is_uuid e pollId" and "isInteger optionIndex" and "\<not> lessThanZero optionIndex"
  shows "((\<forall>p\<in>set (polls s). polls_id p \<noteq> pollId) \<longrightarrow>
            snd (submitVote e s pollId optionIndex) = s
          \<and> fst (submitVote e s pollId optionIndex) \<noteq> [(''error'', Null)]
          \<and> (auth e = SignedIn u \<longrightarrow>
                fst (submitVote e s pollId optionIndex) = [(''error'', Message ''Poll not found.'')]))
       \<and> (\<forall>p. read_fault e = None \<and> filter (\<lambda>p. polls_id p = pollId) (polls s) = [p]
              \<and> atLeastLength optionIndex (length (polls_options p)) \<longrightarrow>
            snd (submitVote e s pollId optionIndex) = s
          \<and> fst (submitVote e s pollId optionIndex) \<noteq> [(''error'', Null)]
          \<and> (auth e = SignedIn u \<longrightarrow>
                fst (submitVote e s pollId optionIndex) = [(''error'', Message ''Invalid option selected.'')]))"
proof -
  have v: "SubmitVoteSchema e pollId optionIndex = Inr (pollId, optionIndex)"
    using assms by (rule SubmitVoteSchema_valid)
  show ?thesis
  proof (cases "auth e")
    case (AuthError m)
    then show ?thesis using v by (simp add: submitVote_def getAuthenticatedUser_def)
  next
    case NoUser
    then show ?thesis using v by (simp add: submitVote_def getAuthenticatedUser_def)
  next
    case (SignedIn w)
    then show ?thesis using v
      by (auto simp add: submitVote_def getAuthenticatedUser_def select_poll_missing select_poll_found)
  qed
qed

theorem submitVote_checks_live_poll_witness:
  "submitVote (session (SignedIn (js ''bob'')) 2) (world\<lparr>polls := []\<rparr>) color_poll_id (Finite 0)
     = ([(''error'', Message ''Poll not found.'')], world\<lparr>polls := []\<rparr>)
   \<and> submitVote (session (SignedIn (js ''bob'')) 2) world color_poll_id (Finite 2)
     = ([(''error'', Message ''Invalid option selected.'')], world)"
proof -
  let ?e = "session (SignedIn (js ''bob'')) 2"
  have u: "is_uuid ?e color_poll_id" by (simp add: session_def color_poll_id_length)
  have a: "auth ?e = SignedIn (js ''bob'')" by (simp add: session_def)
  have r: "read_fault ?e = None" by (simp add: session_def)
  have n: "atLeastLength (Finite 2) (length (polls_options color_poll))"
    by (simp add: color_poll_def)
  have "submitVote ?e (world\<lparr>polls := []\<rparr>) color_poll_id (Finite 0)
     = ([(''error'', Message ''Poll not found.'')], world\<lparr>polls := []\<rparr>)"
    using submitVote_checks_live_poll [of ?e color_poll_id "Finite 0" "world\<lparr>polls := []\<rparr>" "js ''bob''", OF u] a
    by (simp add: prod_eq_iff)
  moreover have "submitVote ?e world color_poll_id (Finite 2)
     = ([(''error'', Message ''Invalid option selected.'')], world)"
    using submitVote_checks_live_poll [of ?e color_poll_id "Finite 2" world "js ''bob''", OF u]
      a r world_lookup n
    by (simp add: prod_eq_iff)
  ultimately show ?thesis by (rule conjI)
qed

text \<open>
  C10. \<open>castVote\<close> looks at nothing but the emptiness of its two identifiers: whatever
  the session, the polls in storage and the index (negative, fractional, \<open>NaN\<close>), it
  goes to the upsert, and when the database takes the write it answers
  \<open>{ success: true, data }\<close> with the payload among the votes.
\<close>

theorem castVote_no_checks:
  assumes "poll_id \<noteq> []" and "user_id \<noteq> []" and "write_fault e = None"
  shows "\<exists>rows. castVote e s poll_id user_id option_index =
           ([(''success'', Bool True), (''data'', VoteRows rows)],
            s\<lparr>votes := upsert_rows \<lparr>votes_poll_id = poll_id, votes_user_id = user_id,
                 votes_option_index = option_index, votes_created_at = now e\<rparr> (votes s)\<rparr>)
     \<and> \<lparr>votes_poll_id = poll_id, votes_user_id = user_id,
          votes_option_index = option_index, votes_created_at = now e\<rparr>
        \<in> set (votes (snd (castVote e s poll_id user_id option_index)))"
  using assms by (simp add: castVote_def upsert_vote_def upsert_rows_member)

theorem castVote_no_checks_witness:
  "snd (castVote (session NoUser 5) (world\<lparr>polls := []\<rparr>) color_poll_id (js ''mallory'') (Finite (- 7)))
     = world\<lparr>polls := [],
         votes := [\<lparr>votes_poll_id = color_poll_id, votes_user_id = js ''mallory'',
                    votes_option_index = Finite (- 7), votes_created_at = 5\<rparr>]\<rparr>"
proof -
  let ?e = "session NoUser 5"
  have 1: "color_poll_id \<noteq> []" using color_poll_id_length by auto
  have 2: "js ''mallory'' \<noteq> []" by (simp add: js_def)
  have 3: "write_fault ?e = None" by (simp add: session_def)
  have 4: "now ?e = 5" by (simp add: session_def)
  show ?thesis
    using castVote_no_checks [of color_poll_id "js ''mallory''" ?e "world\<lparr>polls := []\<rparr>" "Finite (- 7)", OF 1 2 3]
    by (auto simp add: 4 upsert_rows_def world_def)
qed

text \<open>
  C2. On a poll in storage, with at most one vote of the voter on that poll to begin with
  (the uniqueness constraint on \<open>(poll_id, user_id)\<close>), any non-empty sequence of
  \<open>submitVote\<close> calls by that voter that the action accepts (signed-in, storage
  reachable, index valid for the poll) leaves exactly one vote of the voter on the poll:
  the poll, the voter, the index of the last call and the time of the last call. The
  votes of other voters and on other polls are as before.
\<close>

theorem submitVote_repeated_one_row:
  assumes "calls \<noteq> []"
    and "filter (\<lambda>p. polls_id p = pollId) (polls s) = [p]"
    and "\<forall>c\<in>set calls. auth (fst c) = SignedIn u \<and> read_fault (fst c) = None
           \<and> write_fault (fst c) = None \<and> is_uuid (fst c) pollId \<and> isInteger (snd c)
           \<and> \<not> lessThanZero (snd c) \<and> \<not> atLeastLength (snd c) (length (polls_options p))"
    and "length (votes_of pollId u s) \<le> 1"
  shows "votes_of pollId u (submitVotes s pollId calls) =
           [\<lparr>votes_poll_id = pollId, votes_user_id = u,
             votes_option_index = snd (last calls), votes_created_at = now (fst (last calls))\<rparr>]
       \<and> other_votes pollId u (submitVotes s pollId calls) = other_votes pollId u s"
  using assms
proof (induction calls arbitrary: s)
  case Nil
  then show ?case by simp
next
  case (Cons c calls)
  let ?s1 = "snd (submitVote (fst c) s pollId (snd c))"
  from Cons.prems(3) have c: "auth (fst c) = SignedIn u" "read_fault (fst c) = None"
    "write_fault (fst c) = None" "is_uuid (fst c) pollId" "isInteger (snd c)"
    "\<not> lessThanZero (snd c)" "\<not> atLeastLength (snd c) (length (polls_options p))"
    by simp_all
  note step = submitVote_step [OF c(1-6) Cons.prems(2) c(7) Cons.prems(4)]
  show ?case
  proof (cases "calls = []")
    case True
    then show ?thesis using step by simp
  next
    case False
    have "filter (\<lambda>p. polls_id p = pollId) (polls ?s1) = [p]"
      using step(1) Cons.prems(2) by simp
    moreover have "\<forall>c\<in>set calls. auth (fst c) = SignedIn u \<and> read_fault (fst c) = None
           \<and> write_fault (fst c) = None \<and> is_uuid (fst c) pollId \<and> isInteger (snd c)
           \<and> \<not> lessThanZero (snd c) \<and> \<not> atLeastLength (snd c) (length (polls_options p))"
      using Cons.prems(3) by simp
    moreover have "length (votes_of pollId u ?s1) \<le> 1" using step(2) by simp
    ultimately have "votes_of pollId u (submitVotes ?s1 pollId calls) =
           [\<lparr>votes_poll_id = pollId, votes_user_id = u,
             votes_option_index = snd (last calls), votes_created_at = now (fst (last calls))\<rparr>]
       \<and> other_votes pollId u (submitVotes ?s1 pollId calls) = other_votes pollId u ?s1"
      using Cons.IH [of ?s1] False by blast
    then show ?thesis using False step(3) by simp
  qed
qed

theorem submitVote_repeated_one_row_witness:
  "votes (submitVotes world color_poll_id
      [(session (SignedIn (js ''bob'')) 2, Finite 0), (session (SignedIn (js ''bob'')) 3, Finite 1)])
     = [\<lparr>votes_poll_id = color_poll_id, votes_user_id = js ''bob'',
          votes_option_index = Finite 1, votes_created_at = 3\<rparr>]"
proof -
  let ?calls = "[(session (SignedIn (js ''bob'')) 2, Finite 0), (session (SignedIn (js ''bob'')) 3, Finite 1)]"
  let ?s = "submitVotes world color_poll_id ?calls"
  have h: "\<forall>c\<in>set ?calls. auth (fst c) = SignedIn (js ''bob'') \<and> read_fault (fst c) = None
           \<and> write_fault (fst c) = None \<and> is_uuid (fst c) color_poll_id \<and> isInteger (snd c)
           \<and> \<not> lessThanZero (snd c) \<and> \<not> atLeastLength (snd c) (length (polls_options color_poll))"
    by (simp add: session_def color_poll_id_length color_poll_def)
  have u: "length (votes_of color_poll_id (js ''bob'') world) \<le> 1"
    by (simp add: votes_of_def world_def)
  have o: "other_votes color_poll_id (js ''bob'') world = []"
    by (simp add: other_votes_def world_def)
  have r: "votes_of color_poll_id (js ''bob'') ?s =
      [\<lparr>votes_poll_id = color_poll_id, votes_user_id = js ''bob'',
          votes_option_index = Finite 1, votes_created_at = 3\<rparr>]
     \<and> other_votes color_poll_id (js ''bob'') ?s = []"
    using submitVote_repeated_one_row [of ?calls color_poll_id world color_poll "js ''bob''", OF _ world_lookup h u] o
    by (simp add: session_def)
  have "filter (\<lambda>v. \<not> (votes_poll_id v = color_poll_id \<and> votes_user_id v = js ''bob'')) (votes ?s) = []"
    using r by (simp add: other_votes_def)
  then have "filter (\<lambda>v. votes_poll_id v = color_poll_id \<and> votes_user_id v = js ''bob'') (votes ?s) = votes ?s"
    by (simp add: filter_empty_conv filter_id_conv)
  then show ?thesis using r by (simp add: votes_of_def)
qed

text \<open>
  C3. Two calls of \<open>submitVote\<close> by one voter on one poll, both accepted, running at the
  same time on a table with at most one vote of the pair: under every schedule of their
  steps, complete or not, the table never holds two votes of the pair and the other votes
  are as before; when both calls have answered, both succeeded and exactly one vote of
  the pair is left, the payload of one of the two. A call run alone is \<open>submitVote\<close>;
  the step before the write does not read \<open>votes\<close>, and the write is the one upsert.
\<close>

theorem concurrent_submitVote_one_row:
  assumes "\<forall>c\<in>set [a, b]. call_poll c = pollId \<and> auth (call_env c) = SignedIn u
             \<and> read_fault (call_env c) = None \<and> write_fault (call_env c) = None
             \<and> is_uuid (call_env c) pollId \<and> isInteger (call_index c)
             \<and> \<not> lessThanZero (call_index c)
             \<and> \<not> atLeastLength (call_index c) (length (polls_options p))"
    and "filter (\<lambda>p. polls_id p = pollId) (polls s) = [p]"
    and "length (votes_of pollId u s) \<le> 1"
  shows "length (votes_of pollId u (fst (run [a, b] ks (s, [NotStarted, NotStarted])))) \<le> 1
       \<and> other_votes pollId u (fst (run [a, b] ks (s, [NotStarted, NotStarted]))) = other_votes pollId u s
       \<and> (\<forall>ra rb. snd (run [a, b] ks (s, [NotStarted, NotStarted])) = [Done ra, Done rb] \<longrightarrow>
             ra = [(''error'', Null)] \<and> rb = [(''error'', Null)]
           \<and> (votes_of pollId u (fst (run [a, b] ks (s, [NotStarted, NotStarted]))) =
                 [\<lparr>votes_poll_id = pollId, votes_user_id = u, votes_option_index = call_index a,
                   votes_created_at = now (call_env a)\<rparr>]
             \<or> votes_of pollId u (fst (run [a, b] ks (s, [NotStarted, NotStarted]))) =
                 [\<lparr>votes_poll_id = pollId, votes_user_id = u, votes_option_index = call_index b,
                   votes_created_at = now (call_env b)\<rparr>]))
       \<and> (\<forall>c s0. run [c] [0, 0] (s0, [NotStarted]) =
             (snd (submitVote (call_env c) s0 (call_poll c) (call_index c)),
              [Done (fst (submitVote (call_env c) s0 (call_poll c) (call_index c)))]))
       \<and> (\<forall>e s0 i vs. vote_request e (s0\<lparr>votes := vs\<rparr>) pollId i = vote_request e s0 pollId i)
       \<and> (\<forall>e s0 i. submitVote e s0 pollId i =
             (case vote_request e s0 pollId i of Inl r \<Rightarrow> (r, s0) | Inr v \<Rightarrow> vote_write e s0 v))
       \<and> (\<forall>e s0 v. write_fault e = None \<longrightarrow>
             votes (snd (vote_write e s0 v)) = upsert_rows v (votes s0))"
proof -
  let ?init = "(s, [NotStarted, NotStarted])"
  let ?fin = "run [a, b] ks ?init"
  have acc: "\<forall>c\<in>set [a, b]. accepted pollId u p c"
    using assms(1) by (simp add: accepted_def)
  have "one_row_invariant [a, b] pollId u s ?init"
    using assms(3) by (simp add: one_row_invariant_def less_Suc_eq)
  with acc assms(2) have inv: "one_row_invariant [a, b] pollId u s ?fin" by (rule run_invariant)
  then have 1: "length (votes_of pollId u (fst ?fin)) \<le> 1"
    and 2: "other_votes pollId u (fst ?fin) = other_votes pollId u s"
    by (simp_all add: one_row_invariant_def)
  have pa: "payload_of u a = \<lparr>votes_poll_id = pollId, votes_user_id = u, votes_option_index = call_index a,
                   votes_created_at = now (call_env a)\<rparr>"
    and pb: "payload_of u b = \<lparr>votes_poll_id = pollId, votes_user_id = u, votes_option_index = call_index b,
                   votes_created_at = now (call_env b)\<rparr>"
    using assms(1) by (simp_all add: payload_of_def)
  have 3: "ra = [(''error'', Null)] \<and> rb = [(''error'', Null)]
           \<and> (votes_of pollId u (fst ?fin) = [payload_of u a] \<or> votes_of pollId u (fst ?fin) = [payload_of u b])"
    if d: "snd ?fin = [Done ra, Done rb]" for ra rb
  proof -
    have "snd ?fin ! 0 = Done ra" and "snd ?fin ! 1 = Done rb" using d by simp_all
    then have da: "ra = [(''error'', Null)] \<and> (\<exists>i<length [a, b]. votes_of pollId u (fst ?fin) = [payload_of u ([a, b] ! i)])"
      and db: "rb = [(''error'', Null)] \<and> (\<exists>i<length [a, b]. votes_of pollId u (fst ?fin) = [payload_of u ([a, b] ! i)])"
      using invariant_done [OF inv, of 0 ra] invariant_done [OF inv, of 1 rb] by simp_all
    from da obtain i where i: "i < length [a, b]" "votes_of pollId u (fst ?fin) = [payload_of u ([a, b] ! i)]"
      by blast
    from i(1) have "i < 2" by simp
    then have "i = 0 \<or> i = Suc 0" by (rule less_2_cases)
    then have "votes_of pollId u (fst ?fin) = [payload_of u a] \<or> votes_of pollId u (fst ?fin) = [payload_of u b]"
      using i(2) by auto
    with da db show ?thesis by simp
  qed
  have 4: "\<forall>e s0 v. write_fault e = None \<longrightarrow> votes (snd (vote_write e s0 v)) = upsert_rows v (votes s0)"
    by (simp add: vote_write_accepted revalidatePath_def)
  show ?thesis
    using 1 2 3 run_alone vote_request_ignores_votes submitVote_request_then_write 4
    unfolding pa pb by (intro conjI allI impI) blast+
qed

theorem concurrent_submitVote_one_row_witness:
  "run [\<lparr>call_env = session (SignedIn (js ''bob'')) 2, call_poll = color_poll_id, call_index = Finite 0\<rparr>,
        \<lparr>call_env = session (SignedIn (js ''bob'')) 3, call_poll = color_poll_id, call_index = Finite 1\<rparr>]
       [0, 1, 1, 0] (world, [NotStarted, NotStarted])
     = (world\<lparr>votes := [\<lparr>votes_poll_id = color_poll_id, votes_user_id = js ''bob'',
                           votes_option_index = Finite 0, votes_created_at = 2\<rparr>],
              revalidated := [PollPath color_poll_id, PollPath color_poll_id]\<rparr>,
        [Done [(''error'', Null)], Done [(''error'', Null)]])
   \<and> length (votes_of color_poll_id (js ''bob'')
        (fst (run [\<lparr>call_env = session (SignedIn (js ''bob'')) 2, call_poll = color_poll_id, call_index = Finite 0\<rparr>,
                   \<lparr>call_env = session (SignedIn (js ''bob'')) 3, call_poll = color_poll_id, call_index = Finite 1\<rparr>]
               [0, 1, 1, 0] (world, [NotStarted, NotStarted])))) \<le> 1"
proof -
  let ?a = "\<lparr>call_env = session (SignedIn (js ''bob'')) 2, call_poll = color_poll_id, call_index = Finite 0\<rparr>"
  let ?b = "\<lparr>call_env = session (SignedIn (js ''bob'')) 3, call_poll = color_poll_id, call_index = Finite 1\<rparr>"
  let ?va = "\<lparr>votes_poll_id = color_poll_id, votes_user_id = js ''bob'',
               votes_option_index = Finite 0, votes_created_at = 2\<rparr>"
  let ?vb = "\<lparr>votes_poll_id = color_poll_id, votes_user_id = js ''bob'',
               votes_option_index = Finite 1, votes_created_at = 3\<rparr>"
  have h: "\<forall>c\<in>set [?a, ?b]. call_poll c = color_poll_id \<and> auth (call_env c) = SignedIn (js ''bob'')
             \<and> read_fault (call_env c) = None \<and> write_fault (call_env c) = None
             \<and> is_uuid (call_env c) color_poll_id \<and> isInteger (call_index c)
             \<and> \<not> lessThanZero (call_index c)
             \<and> \<not> atLeastLength (call_index c) (length (polls_options color_poll))"
    by (simp add: session_def color_poll_id_length color_poll_def)
  have u: "length (votes_of color_poll_id (js ''bob'') world) \<le> 1"
    by (simp add: votes_of_def world_def)
  have one: "length (votes_of color_poll_id (js ''bob'')
        (fst (run [?a, ?b] [0, 1, 1, 0] (world, [NotStarted, NotStarted])))) \<le> 1"
    using concurrent_submitVote_one_row [of ?a ?b color_poll_id "js ''bob''" color_poll world "[0, 1, 1, 0]",
        OF h world_lookup u]
    by blast
  have acc: "accepted color_poll_id (js ''bob'') color_poll ?a" "accepted color_poll_id (js ''bob'') color_poll ?b"
    using h by (simp_all add: accepted_def)
  have ra: "vote_request (session (SignedIn (js ''bob'')) 2) world color_poll_id (Finite 0) = Inr ?va"
    using vote_request_accepted [OF acc(1) world_lookup] by (simp add: payload_of_def session_def)
  have rb: "vote_request (session (SignedIn (js ''bob'')) 3) world color_poll_id (Finite 1) = Inr ?vb"
    using vote_request_accepted [OF acc(2) world_lookup] by (simp add: payload_of_def session_def)
  have wb: "vote_write (session (SignedIn (js ''bob'')) 3) world ?vb
      = ([(''error'', Null)], world\<lparr>votes := [?vb], revalidated := [PollPath color_poll_id]\<rparr>)"
    by (simp add: vote_write_def upsert_vote_def upsert_rows_def revalidatePath_def session_def world_def)
  have wa: "vote_write (session (SignedIn (js ''bob'')) 2)
        (world\<lparr>votes := [?vb], revalidated := [PollPath color_poll_id]\<rparr>) ?va
      = ([(''error'', Null)],
         world\<lparr>votes := [?va], revalidated := [PollPath color_poll_id, PollPath color_poll_id]\<rparr>)"
    by (simp add: vote_write_def upsert_vote_def upsert_rows_def same_key_def revalidatePath_def
        session_def world_def)
  have "run [?a, ?b] [0, 1, 1, 0] (world, [NotStarted, NotStarted])
     = (world\<lparr>votes := [?va], revalidated := [PollPath color_poll_id, PollPath color_poll_id]\<rparr>,
        [Done [(''error'', Null)], Done [(''error'', Null)]])"
    by (simp add: step_def ra rb wb wa)
  then show ?thesis using one by simp
qed

section \<open>Updating a poll\<close>

text \<open>
  C6. For a poll in storage and a signed-in caller who is not its owner, whatever the
  role in the caller's profile, \<open>updatePoll\<close> never succeeds and leaves the state as
  it was; when the form is valid the answer is "Forbidden: you do not own this poll.".
\<close>

theorem updatePoll_denies_non_owner:
  assumes "auth e = SignedIn u" and "read_fault e = None"
    and "filter (\<lambda>p. polls_id p = pollId) (polls s) = [p]" and "polls_user_id p \<noteq> u"
  shows "snd (updatePoll e s pollId fd) = s
       \<and> fst (updatePoll e s pollId fd) \<noteq> [(''error'', Null)]
       \<and> (poll_issues (form_question fd) (form_options fd) = [] \<longrightarrow>
            updatePoll e s pollId fd = ([(''error'', Message ''Forbidden: you do not own this poll.'')], s))"
proof (cases "poll_issues (form_question fd) (form_options fd) = []")
  case True
  then obtain q where "CreateUpdatePollSchema (form_question fd) (form_options fd) = Inr (q, form_options fd)"
    using schema_accepts by blast
  then have "updatePoll e s pollId fd = ([(''error'', Message ''Forbidden: you do not own this poll.'')], s)"
    using assms by (simp add: updatePoll_def getAuthenticatedUser_def select_poll_found)
  then show ?thesis by simp
next
  case False
  then have "updatePoll e s pollId fd =
      ([(''error'', Message (issues_text e (poll_issues (form_question fd) (form_options fd))))], s)"
    by (simp add: updatePoll_def schema_rejects)
  then show ?thesis using False by simp
qed

theorem updatePoll_denies_non_owner_witness:
  "profile_role (session (SignedIn (js ''root'')) 4) world (js ''root'') = Some (js ''admin'')
   \<and> updatePoll (session (SignedIn (js ''root'')) 4) world color_poll_id recolor_form
       = ([(''error'', Message ''Forbidden: you do not own this poll.'')], world)"
proof -
  let ?e = "session (SignedIn (js ''root'')) 4"
  have admin: "profile_role ?e world (js ''root'') = Some (js ''admin'')"
    by (simp add: profile_role_def single_def session_def world_def)
  have a: "auth ?e = SignedIn (js ''root'')" and r: "read_fault ?e = None"
    by (simp_all add: session_def)
  have owner: "polls_user_id color_poll \<noteq> js ''root''"
    by (simp add: color_poll_def js_def)
  show ?thesis
    using updatePoll_denies_non_owner [of ?e "js ''root''" color_poll_id world color_poll recolor_form,
        OF a r world_lookup owner] recolor_form_valid admin
    by simp
qed

text \<open>
  C7. A call of \<open>updatePoll\<close> that succeeds was made by the owner of the poll, and it
  replaces the question and the options of the rows with that identifier by the
  validated ones: the identifiers, owners and creation times of the polls, the votes
  and the profiles are as before.
\<close>

theorem updatePoll_replaces_question_and_options_only:
  assumes "updatePoll e s pollId fd = ([(''error'', Null)], s')"
  shows "\<exists>q p. form_question fd = Field q \<and> auth e = SignedIn (polls_user_id p)
          \<and> select_poll e s pollId = Inr p
          \<and> polls s' = map (\<lambda>r. if polls_id r = pollId
                                 then r\<lparr>polls_question := q, polls_options := form_options fd\<rparr> else r) (polls s)
          \<and> map polls_id (polls s') = map polls_id (polls s)
          \<and> map polls_user_id (polls s') = map polls_user_id (polls s)
          \<and> map polls_created_at (polls s') = map polls_created_at (polls s)
          \<and> votes s' = votes s \<and> profiles s' = profiles s"
proof -
  from assms obtain q os where v: "CreateUpdatePollSchema (form_question fd) (form_options fd) = Inr (q, os)"
    by (auto simp add: updatePoll_def split: sum.splits)
  then have q: "form_question fd = Field q" and os: "os = form_options fd"
    using schema_Inr by blast+
  from assms v obtain u where u: "auth e = SignedIn u"
    by (cases "auth e") (auto simp add: updatePoll_def getAuthenticatedUser_def)
  from assms v u obtain p where p: "select_poll e s pollId = Inr p"
    by (cases "select_poll e s pollId") (auto simp add: updatePoll_def getAuthenticatedUser_def)
  from assms v u p have own: "polls_user_id p = u"
    by (auto simp add: updatePoll_def getAuthenticatedUser_def split: if_splits)
  from assms v u p own have w: "write_fault e = None"
    by (cases "write_fault e") (auto simp add: updatePoll_def getAuthenticatedUser_def update_poll_def)
  let ?f = "\<lambda>r. if polls_id r = pollId then r\<lparr>polls_question := q, polls_options := os\<rparr> else r"
  from assms v u p own w have s': "s' = revalidatePath (PollPath pollId) (s\<lparr>polls := map ?f (polls s)\<rparr>)"
    by (simp add: updatePoll_def getAuthenticatedUser_def update_poll_def)
  have "map polls_id (map ?f (polls s)) = map polls_id (polls s)"
    and "map polls_user_id (map ?f (polls s)) = map polls_user_id (polls s)"
    and "map polls_created_at (map ?f (polls s)) = map polls_created_at (polls s)"
    by (induction "polls s") simp_all
  then show ?thesis using q os u p own s' by (auto simp add: revalidatePath_def)
qed

theorem updatePoll_replaces_question_and_options_only_witness:
  "updatePoll (session (SignedIn (js ''alice'')) 4) world color_poll_id recolor_form
     = ([(''error'', Null)],
        world\<lparr>polls := [color_poll\<lparr>polls_question := js ''Worst color?'',
                                     polls_options := [js ''Green'', js ''Pink'']\<rparr>],
              revalidated := [PollPath color_poll_id]\<rparr>)
   \<and> map polls_id (polls (snd (updatePoll (session (SignedIn (js ''alice'')) 4) world color_poll_id recolor_form)))
       = [color_poll_id]
   \<and> map polls_user_id (polls (snd (updatePoll (session (SignedIn (js ''alice'')) 4) world color_poll_id recolor_form)))
       = [js ''alice'']
   \<and> map polls_created_at (polls (snd (updatePoll (session (SignedIn (js ''alice'')) 4) world color_poll_id recolor_form)))
       = [1]"
proof -
  let ?e = "session (SignedIn (js ''alice'')) 4"
  let ?s' = "world\<lparr>polls := [color_poll\<lparr>polls_question := js ''Worst color?'',
                                     polls_options := [js ''Green'', js ''Pink'']\<rparr>],
              revalidated := [PollPath color_poll_id]\<rparr>"
  obtain q where q: "CreateUpdatePollSchema (form_question recolor_form) (form_options recolor_form)
      = Inr (q, form_options recolor_form)" "form_question recolor_form = Field q"
    using schema_accepts [OF recolor_form_valid] by blast
  then have q': "q = js ''Worst color?''" by (simp add: recolor_form_question)
  have l: "select_poll ?e world color_poll_id = Inr color_poll"
    using world_lookup by (intro select_poll_found) (simp_all add: session_def)
  have run: "updatePoll ?e world color_poll_id recolor_form = ([(''error'', Null)], ?s')"
    using q(1) l
    by (simp add: updatePoll_def getAuthenticatedUser_def update_poll_def revalidatePath_def q'
        recolor_form_options session_def world_def color_poll_def)
  from updatePoll_replaces_question_and_options_only [OF run]
  have "map polls_id (polls ?s') = map polls_id (polls world)"
    and "map polls_user_id (polls ?s') = map polls_user_id (polls world)"
    and "map polls_created_at (polls ?s') = map polls_created_at (polls world)"
    by blast+
  then show ?thesis using run by (simp add: world_def color_poll_def)
qed

section \<open>Lookup before ownership\<close>

text \<open>
  C8. When no poll in storage has the identifier, the lookup of \<open>deletePoll\<close> and of
  \<open>updatePoll\<close> fails: every call fails and leaves the state as it was, and a call that
  reaches the lookup (non-empty identifier or valid form, signed-in caller) answers the
  error of the lookup, whoever the caller is. The comparison of owners is not reached.
\<close>

theorem missing_poll_reported_before_ownership:
  assumes "\<forall>p\<in>set (polls s). polls_id p \<noteq> i"
  shows "\<exists>m. select_poll e s i = Inl m
       \<and> snd (deletePoll e s i) = s \<and> fst (deletePoll e s i) \<noteq> [(''error'', Null)]
       \<and> snd (updatePoll e s i fd) = s \<and> fst (updatePoll e s i fd) \<noteq> [(''error'', Null)]
       \<and> (i \<noteq> [] \<and> auth e = SignedIn u \<longrightarrow> deletePoll e s i = ([(''error'', Message m)], s))
       \<and> (poll_issues (form_question fd) (form_options fd) = [] \<and> auth e = SignedIn u \<longrightarrow>
            updatePoll e s i fd = ([(''error'', Message m)], s))"
proof -
  let ?m = "case read_fault e of Some m \<Rightarrow> m | None \<Rightarrow> single_message e"
  have l: "select_poll e s i = Inl ?m" using assms by (rule select_poll_missing)
  have d: "deletePoll e s i = ([(''error'', Message ?m)], s)" if "i \<noteq> []" "auth e = SignedIn u"
    using that l by (simp add: deletePoll_def getAuthenticatedUser_def)
  have d': "snd (deletePoll e s i) = s \<and> fst (deletePoll e s i) \<noteq> [(''error'', Null)]"
    using l by (cases "auth e") (simp_all add: deletePoll_def getAuthenticatedUser_def)
  have up: "updatePoll e s i fd = ([(''error'', Message ?m)], s)"
    if "poll_issues (form_question fd) (form_options fd) = []" "auth e = SignedIn u"
  proof -
    from that(1) obtain q where "CreateUpdatePollSchema (form_question fd) (form_options fd) = Inr (q, form_options fd)"
      using schema_accepts by blast
    then show ?thesis using that(2) l by (simp add: updatePoll_def getAuthenticatedUser_def)
  qed
  have up': "snd (updatePoll e s i fd) = s \<and> fst (updatePoll e s i fd) \<noteq> [(''error'', Null)]"
  proof (cases "poll_issues (form_question fd) (form_options fd) = []")
    case True
    then obtain q where "CreateUpdatePollSchema (form_question fd) (form_options fd) = Inr (q, form_options fd)"
      using schema_accepts by blast
    then show ?thesis using l
      by (cases "auth e") (simp_all add: updatePoll_def getAuthenticatedUser_def)
  next
    case False
    then show ?thesis by (simp add: updatePoll_def schema_rejects)
  qed
  from l d d' up up' show ?thesis by blast
qed

theorem missing_poll_reported_before_ownership_witness:
  "deletePoll (session (SignedIn (js ''bob'')) 4) world (js ''0a'')
     = ([(''error'', Message ''JSON object requested, multiple (or no) rows returned'')], world)
   \<and> updatePoll (session (SignedIn (js ''bob'')) 4) world (js ''0a'') recolor_form
     = ([(''error'', Message ''JSON object requested, multiple (or no) rows returned'')], world)"
proof -
  let ?e = "session (SignedIn (js ''bob'')) 4"
  have none: "\<forall>p\<in>set (polls world). polls_id p \<noteq> js ''0a''"
    by (simp add: world_def color_poll_def color_poll_id_def js_def)
  have l: "select_poll ?e world (js ''0a'') = Inl ''JSON object requested, multiple (or no) rows returned''"
    using select_poll_missing [OF none, of ?e] by (simp add: session_def)
  have a: "auth ?e = SignedIn (js ''bob'')" by (simp add: session_def)
  have i: "js ''0a'' \<noteq> []" by (simp add: js_def)
  show ?thesis
    using missing_poll_reported_before_ownership [OF none, where e = ?e and u = "js ''bob''" and fd = recolor_form]
      l a i recolor_form_valid
    by auto
qed

section \<open>The shape of the answers\<close>

text \<open>
  C9. Three actions answer outside the return type standard \<open>{ error, data? }\<close>, on
  every input: \<open>getUserPolls\<close> answers \<open>{ polls, error }\<close>, \<open>getPollById\<close>
  answers \<open>{ poll, error }\<close>, and \<open>castVote\<close> answers \<open>{ success, error }\<close> or
  \<open>{ success, data }\<close>.
\<close>

theorem answers_outside_return_standard:
  "\<not> envelope (fst (getUserPolls e s)) \<and> \<not> envelope (fst (getPollById e s i))
   \<and> \<not> envelope (fst (castVote e s poll_id user_id option_index))"
proof -
  have "map fst (fst (getUserPolls e s)) = [''polls'', ''error'']"
    by (simp add: getUserPolls_def split: sum.splits option.splits)
  moreover have "map fst (fst (getPollById e s i)) = [''poll'', ''error'']"
    by (simp add: getPollById_def split: sum.splits)
  moreover have "map fst (fst (castVote e s poll_id user_id option_index)) = [''success'', ''error'']
      \<or> map fst (fst (castVote e s poll_id user_id option_index)) = [''success'', ''data'']"
    by (simp add: castVote_def split: sum.splits prod.splits)
  ultimately show ?thesis by (auto simp add: envelope_def)
qed

text \<open>The other four actions answer \<open>{ error }\<close>.\<close>

lemma answers_within_return_standard:
  "map fst (fst (createPoll e s fd)) = [''error'']"
  "map fst (fst (submitVote e s pollId optionIndex)) = [''error'']"
  "map fst (fst (deletePoll e s i)) = [''error'']"
  "map fst (fst (updatePoll e s i fd)) = [''error'']"
  by (simp_all add: createPoll_def submitVote_def deletePoll_def updatePoll_def
      split: sum.splits option.splits prod.splits)

text \<open>
  An answer whose \<open>error\<close> is a message comes with the state as it was; the two reads
  never change it.
\<close>

lemma error_leaves_state:
  "map_of (fst (createPoll e s fd)) ''error'' = Some (Message m) \<Longrightarrow> snd (createPoll e s fd) = s"
  "map_of (fst (submitVote e s pollId optionIndex)) ''error'' = Some (Message m) \<Longrightarrow>
     snd (submitVote e s pollId optionIndex) = s"
  "map_of (fst (castVote e s poll_id user_id option_index)) ''error'' = Some (Message m) \<Longrightarrow>
     snd (castVote e s poll_id user_id option_index) = s"
  "map_of (fst (deletePoll e s i)) ''error'' = Some (Message m) \<Longrightarrow> snd (deletePoll e s i) = s"
  "map_of (fst (updatePoll e s i fd)) ''error'' = Some (Message m) \<Longrightarrow> snd (updatePoll e s i fd) = s"
  "snd (getUserPolls e s) = s"
  "snd (getPollById e s i) = s"
  by (auto simp add: createPoll_def submitVote_def castVote_def deletePoll_def updatePoll_def
      getUserPolls_def getPollById_def split: sum.splits option.splits prod.splits if_splits)

end
